theory Spec2Isabelle
  imports Main "HOL-Library.Word"
begin

section \<open>Timeout profile (common/post.go, lines 21-53)\<close>

text \<open>
  Go's \<^verbatim>\<open>time.Duration\<close> is an \<^verbatim>\<open>int64\<close> counting nanoseconds; it is a
  64-bit word here. The constants are those of package \<^verbatim>\<open>time\<close>.
\<close>

type_synonym Duration = "64 word"

definition time_Nanosecond :: Duration where
  "time_Nanosecond = 1"

definition time_Microsecond :: Duration where
  "time_Microsecond = 1000 * time_Nanosecond"

definition time_Millisecond :: Duration where
  "time_Millisecond = 1000 * time_Microsecond"

definition time_Second :: Duration where
  "time_Second = 1000 * time_Millisecond"

definition time_Minute :: Duration where
  "time_Minute = 60 * time_Second"

record Timeout =
  Sleep :: Duration
  Waiting :: Duration
  Connection :: Duration
  Hello :: Duration
  Mail :: Duration
  Rcpt :: Duration
  Data :: Duration

text \<open>
  \<^verbatim>\<open>func (t *Timeout) Init()\<close>: seven tests in sequence on the receiver, each one
  assigning a field when it holds the zero duration. The receiver is passed in and the
  updated value returned.
\<close>

definition Timeout_Init :: "Timeout \<Rightarrow> Timeout" where
  "Timeout_Init t0 =
     (let t1 = (if Sleep t0 = 0 then t0\<lparr>Sleep := time_Second\<rparr> else t0);
          t2 = (if Waiting t1 = 0 then t1\<lparr>Waiting := 30 * time_Second\<rparr> else t1);
          t3 = (if Connection t2 = 0 then t2\<lparr>Connection := 5 * time_Minute\<rparr> else t2);
          t4 = (if Hello t3 = 0 then t3\<lparr>Hello := 5 * time_Minute\<rparr> else t3);
          t5 = (if Mail t4 = 0 then t4\<lparr>Mail := 5 * time_Minute\<rparr> else t4);
          t6 = (if Rcpt t5 = 0 then t5\<lparr>Rcpt := 5 * time_Minute\<rparr> else t5);
          t7 = (if Data t6 = 0 then t6\<lparr>Data := 10 * time_Minute\<rparr> else t6)
      in t7)"

section \<open>Characters\<close>

text \<open>
  A Go string is a sequence of bytes; so is a \<^typ>\<open>string\<close> here. The classes
  \<^verbatim>\<open>\d\<close> and \<^verbatim>\<open>\w\<close> of Go's regular expressions are ASCII only:
  \<^verbatim>\<open>[0-9]\<close> and \<^verbatim>\<open>[0-9A-Za-z_]\<close>.
\<close>

definition isDigit :: "char \<Rightarrow> bool" where
  "isDigit c = (48 \<le> (of_char c :: nat) \<and> (of_char c :: nat) \<le> 57)"

definition isLetter :: "char \<Rightarrow> bool" where
  "isLetter c = ((65 \<le> (of_char c :: nat) \<and> (of_char c :: nat) \<le> 90)
     \<or> (97 \<le> (of_char c :: nat) \<and> (of_char c :: nat) \<le> 122))"

definition isWordChar :: "char \<Rightarrow> bool" where
  "isWordChar c = (isDigit c \<or> isLetter c \<or> c = CHR ''_'')"

section \<open>Regular expressions (the part of package regexp that EmailRegexp uses)\<close>

text \<open>
  The pattern of \<^verbatim>\<open>EmailRegexp\<close> is built from the text anchors, literal
  characters, a character class repeated greedily (\<^verbatim>\<open>+\<close> and \<^verbatim>\<open>{2,4}\<close>) and
  one capturing group. A class is a list of items.
\<close>

datatype classItem = PerlWord | PerlDigit | Lit char

fun inItem :: "classItem \<Rightarrow> char \<Rightarrow> bool" where
  "inItem PerlWord c = isWordChar c"
| "inItem PerlDigit c = isDigit c"
| "inItem (Lit x) c = (c = x)"

definition inClass :: "classItem list \<Rightarrow> char \<Rightarrow> bool" where
  "inClass cls c = list_ex (\<lambda>i. inItem i c) cls"

datatype node =
    BeginText
  | EndText
  | Literal char
  | OneOrMore "classItem list"
  | Between nat nat "classItem list"
  | Capture "node list"

text \<open>
  Matching is leftmost-first, as in Go (and Perl): the matcher returns the ways a
  sequence of nodes can match from a position, in order of preference, a greedy
  repetition trying its longest run first. A state is the position reached and the texts
  captured so far.
\<close>

fun step :: "string \<Rightarrow> node \<Rightarrow> nat \<times> string list \<Rightarrow> (nat \<times> string list) list"
  and run :: "string \<Rightarrow> node list \<Rightarrow> nat \<times> string list \<Rightarrow> (nat \<times> string list) list"
  where
  "step s BeginText (p, caps) = (if p = 0 then [(p, caps)] else [])"
| "step s EndText (p, caps) = (if p = length s then [(p, caps)] else [])"
| "step s (Literal c) (p, caps) = (if p < length s \<and> s ! p = c then [(p + 1, caps)] else [])"
| "step s (OneOrMore cls) (p, caps) =
     (let n = length (takeWhile (inClass cls) (drop p s))
      in map (\<lambda>k. (p + k, caps)) (rev [1 ..< n + 1]))"
| "step s (Between lo hi cls) (p, caps) =
     (let n = min hi (length (takeWhile (inClass cls) (drop p s)))
      in map (\<lambda>k. (p + k, caps)) (rev [lo ..< n + 1]))"
| "step s (Capture ns) (p, caps) =
     map (\<lambda>(q, caps'). (q, caps' @ [take (q - p) (drop p s)])) (run s ns (p, caps))"
| "run s [] st = [st]"
| "run s (n # ns) st = concat (map (run s ns) (step s n st))"

text \<open>
  \<^verbatim>\<open>doExecute\<close>: the preferred match that starts at or after \<open>pos\<close>, as
  (start, end, captured texts).
\<close>

definition doExecute :: "node list \<Rightarrow> string \<Rightarrow> nat \<Rightarrow> (nat \<times> nat \<times> string list) option" where
  "doExecute re s pos =
     (case concat (map (\<lambda>b. map (\<lambda>(e, caps). (b, e, caps)) (run s re (b, [])))
                       [pos ..< length s + 1]) of
        [] \<Rightarrow> None
      | m # _ \<Rightarrow> Some m)"

text \<open>
  \<^verbatim>\<open>allMatches\<close>: the successive non-overlapping matches. An empty match directly
  after the previous match is dropped, and the search then moves on (by one byte here, by
  one UTF-8 character in Go; no match of \<^verbatim>\<open>EmailRegexp\<close> is empty). The test
  \<open>e \<le> pos\<close> is Go's \<^verbatim>\<open>matches[1] == pos\<close>: a match never ends before the position
  it was searched from.
\<close>

function allMatches :: "node list \<Rightarrow> string \<Rightarrow> nat \<Rightarrow> nat option \<Rightarrow> string list list" where
  "allMatches re s pos prevMatchEnd =
     (if length s < pos then []
      else (case doExecute re s pos of
              None \<Rightarrow> []
            | Some (b, e, caps) \<Rightarrow>
                if e \<le> pos
                then (if prevMatchEnd = Some b then [] else [take (e - b) (drop b s) # caps])
                     @ allMatches re s (pos + 1) (Some e)
                else (take (e - b) (drop b s) # caps) # allMatches re s e (Some e)))"
  by pat_completeness auto
termination
  by (relation "measure (\<lambda>(re, s, pos, prev). length s + 1 - pos)") auto

definition FindAllStringSubmatch :: "node list \<Rightarrow> string \<Rightarrow> string list list" where
  "FindAllStringSubmatch re s = allMatches re s 0 None"

section \<open>Address parser (common/post.go, lines 16-19 and 127-135)\<close>

text \<open>
  \<^verbatim>\<open>^[\w\d\.\_\%\+\-]+@([\w\d\.\-]+\.\w{2,4})$\<close>
\<close>

definition EmailRegexp :: "node list" where
  "EmailRegexp =
     [BeginText,
      OneOrMore [PerlWord, PerlDigit, Lit CHR ''.'', Lit CHR ''_'', Lit CHR ''%'',
                 Lit CHR ''+'', Lit CHR ''-''],
      Literal CHR ''@'',
      Capture [OneOrMore [PerlWord, PerlDigit, Lit CHR ''.'', Lit CHR ''-''],
               Literal CHR ''.'',
               Between 2 4 [PerlWord]],
      EndText]"

text \<open>A Go error value, as the text its \<^verbatim>\<open>Error\<close> method reports.\<close>

datatype error = errorString string

fun error_Error :: "error \<Rightarrow> string" where
  "error_Error (errorString s) = s"

definition errors_New :: "string \<Rightarrow> error" where
  "errors_New text = errorString text"

text \<open>
  \<^verbatim>\<open>getHostnameFromEmail\<close>: the guard \<^verbatim>\<open>len(matches) == 1 && len(matches[0]) == 2\<close>
  and the read of \<^verbatim>\<open>matches[0][1]\<close> under it are one pattern match.
\<close>

definition getHostnameFromEmail :: "string \<Rightarrow> error + string" where
  "getHostnameFromEmail email =
     (let matches = FindAllStringSubmatch EmailRegexp email
      in case matches of
           [[whole, hostname]] \<Rightarrow> Inr hostname
         | _ \<Rightarrow> Inl (errors_New ''invalid email address''))"

section \<open>Messages (common/post.go, lines 55-125)\<close>

datatype DelayedBindingType =
    UnknownDelayedBinding
  | SecondDelayedBinding
  | ThirtySecondDelayedBinding
  | MinuteDelayedBinding
  | FiveMinutesDelayedBinding
  | TenMinutesDelayedBinding
  | TwentyMinutesDelayedBinding
  | ThirtyMinutesDelayedBinding
  | FortyMinutesDelayedBinding
  | FiftyMinutesDelayedBinding
  | HourDelayedBinding
  | SixHoursDelayedBinding
  | DayDelayedBinding
  | NotSendDelayedBinding

text \<open>
  \<^verbatim>\<open>MailError.Code\<close> is a Go \<^verbatim>\<open>int\<close>, 64 bits wide on the platforms the
  service runs on; it only ever holds what \<^verbatim>\<open>strconv.Atoi\<close> returned, which is
  range-checked, so it is an \<^typ>\<open>int\<close> here.
\<close>

record MailError =
  Message :: string
  Code :: int

text \<open>
  A reading of the clock (\<^verbatim>\<open>time.Time\<close>), as the nanoseconds elapsed since
  1 January 1970 UTC. \<^verbatim>\<open>UnixNano\<close> returns them as an \<^verbatim>\<open>int64\<close>; the zero
  \<^verbatim>\<open>Time\<close> is 1 January of year 1, which is 62135596800 seconds earlier.
\<close>

record Time =
  sinceEpoch :: int

definition UnixNano :: "Time \<Rightarrow> 64 word" where
  "UnixNano t = word_of_int (sinceEpoch t)"

definition zeroTime :: Time where
  "zeroTime = \<lparr>sinceEpoch = - 62135596800 * 1000000000\<rparr>"

definition IsZero :: "Time \<Rightarrow> bool" where
  "IsZero t = (t = zeroTime)"

record MailMessage =
  Id :: "64 word"
  Envelope :: string
  Recipient :: string
  Body :: string
  HostnameFrom :: string
  HostnameTo :: string
  CreatedDate :: Time
  BindingType :: DelayedBindingType
  Error :: "MailError option"

text \<open>
  \<^verbatim>\<open>func (this *MailMessage) Init()\<close>. The two calls of \<^verbatim>\<open>time.Now()\<close> read the
  clock of the machine; their results are the parameters \<open>now1\<close> and \<open>now2\<close>.
\<close>

definition MailMessage_Init :: "MailMessage \<Rightarrow> Time \<Rightarrow> Time \<Rightarrow> MailMessage" where
  "MailMessage_Init this now1 now2 =
     (let this1 = this\<lparr>Id := UnixNano now1\<rparr>;
          this2 = this1\<lparr>CreatedDate := now2\<rparr>;
          this3 = (case getHostnameFromEmail (Envelope this2) of
                     Inr hostname \<Rightarrow> this2\<lparr>HostnameFrom := hostname\<rparr>
                   | Inl err \<Rightarrow> this2);
          this4 = (case getHostnameFromEmail (Recipient this3) of
                     Inr hostname \<Rightarrow> this3\<lparr>HostnameTo := hostname\<rparr>
                   | Inl err \<Rightarrow> this3)
      in this4)"

section \<open>Library functions that ReturnMail calls (packages strings and strconv)\<close>

text \<open>
  \<^verbatim>\<open>strings.Index\<close> and \<^verbatim>\<open>strings.Split\<close>. With an empty separator Go cuts
  the string into its UTF-8 characters (into its bytes here; \<^verbatim>\<open>ReturnMail\<close> splits at
  a space).
\<close>

fun Index :: "string \<Rightarrow> string \<Rightarrow> nat option" where
  "Index [] sep = (if sep = [] then Some 0 else None)"
| "Index (c # cs) sep =
     (if take (length sep) (c # cs) = sep then Some 0 else map_option Suc (Index cs sep))"

function Split :: "string \<Rightarrow> string \<Rightarrow> string list" where
  "Split s sep =
     (if sep = [] then map (\<lambda>c. [c]) s
      else (case Index s sep of
              None \<Rightarrow> [s]
            | Some m \<Rightarrow> take m s # Split (drop (m + length sep) s) sep))"
  by pat_completeness auto
termination
proof (relation "measure (\<lambda>(s, sep). length s)")
  show "wf (measure (\<lambda>(s, sep). length s))"
    by simp
next
  fix s sep :: string and m :: nat
  assume "sep \<noteq> []" and "Index s sep = Some m"
  then have "s \<noteq> []"
    by (cases s) auto
  with \<open>sep \<noteq> []\<close> show "((drop (m + length sep) s, sep), (s, sep)) \<in> measure (\<lambda>(s, sep). length s)"
    by simp
qed

text \<open>
  \<^verbatim>\<open>strings.TrimSpace\<close> removes the leading and the trailing white space, as
  Unicode defines it. In a UTF-8 string these are the six ASCII characters tab, line
  feed, vertical tab, form feed, carriage return and space, and the encodings of U+0085,
  U+00A0, U+1680, U+2000 to U+200A, U+2028, U+2029, U+202F, U+205F and U+3000.
\<close>

definition whiteSpace :: "string list" where
  "whiteSpace =
     [[CHR 0x09], [CHR 0x0A], [CHR 0x0B], [CHR 0x0C], [CHR 0x0D], [CHR 0x20],
      [CHR 0xC2, CHR 0x85], [CHR 0xC2, CHR 0xA0],
      [CHR 0xE1, CHR 0x9A, CHR 0x80],
      [CHR 0xE2, CHR 0x80, CHR 0x80], [CHR 0xE2, CHR 0x80, CHR 0x81],
      [CHR 0xE2, CHR 0x80, CHR 0x82], [CHR 0xE2, CHR 0x80, CHR 0x83],
      [CHR 0xE2, CHR 0x80, CHR 0x84], [CHR 0xE2, CHR 0x80, CHR 0x85],
      [CHR 0xE2, CHR 0x80, CHR 0x86], [CHR 0xE2, CHR 0x80, CHR 0x87],
      [CHR 0xE2, CHR 0x80, CHR 0x88], [CHR 0xE2, CHR 0x80, CHR 0x89],
      [CHR 0xE2, CHR 0x80, CHR 0x8A],
      [CHR 0xE2, CHR 0x80, CHR 0xA8], [CHR 0xE2, CHR 0x80, CHR 0xA9],
      [CHR 0xE2, CHR 0x80, CHR 0xAF],
      [CHR 0xE2, CHR 0x81, CHR 0x9F],
      [CHR 0xE3, CHR 0x80, CHR 0x80]]"

text \<open>The number of bytes of the white-space character a string starts or ends with; 0 if none.\<close>

definition leadingSpace :: "string \<Rightarrow> nat" where
  "leadingSpace s =
     (case find (\<lambda>w. take (length w) s = w) whiteSpace of
        None \<Rightarrow> 0
      | Some w \<Rightarrow> length w)"

definition trailingSpace :: "string \<Rightarrow> nat" where
  "trailingSpace s =
     (case find (\<lambda>w. length w \<le> length s \<and> drop (length s - length w) s = w) whiteSpace of
        None \<Rightarrow> 0
      | Some w \<Rightarrow> length w)"

function TrimLeftSpace :: "string \<Rightarrow> string" where
  "TrimLeftSpace s =
     (if 0 < leadingSpace s then TrimLeftSpace (drop (leadingSpace s) s) else s)"
  by pat_completeness auto
termination
proof (relation "measure length")
  show "wf (measure length)"
    by simp
next
  fix s :: string
  assume "0 < leadingSpace s"
  then have "s \<noteq> []"
    by (auto simp: leadingSpace_def whiteSpace_def)
  with \<open>0 < leadingSpace s\<close> show "(drop (leadingSpace s) s, s) \<in> measure length"
    by simp
qed

function TrimRightSpace :: "string \<Rightarrow> string" where
  "TrimRightSpace s =
     (if 0 < trailingSpace s then TrimRightSpace (take (length s - trailingSpace s) s) else s)"
  by pat_completeness auto
termination
proof (relation "measure length")
  show "wf (measure length)"
    by simp
next
  fix s :: string
  assume "0 < trailingSpace s"
  then have "s \<noteq> []"
    by (auto simp: trailingSpace_def whiteSpace_def)
  with \<open>0 < trailingSpace s\<close> show "(take (length s - trailingSpace s) s, s) \<in> measure length"
    by simp
qed

definition TrimSpace :: "string \<Rightarrow> string" where
  "TrimSpace s = TrimRightSpace (TrimLeftSpace s)"

text \<open>
  \<^verbatim>\<open>strconv.Atoi\<close> is \<^verbatim>\<open>ParseInt(s, 10, 0)\<close> on a 64-bit \<^verbatim>\<open>int\<close>: an
  optional sign, then decimal digits only, and a value from \<open>- 2 ^ 63\<close> to
  \<open>2 ^ 63 - 1\<close> (\<open>2 ^ 63\<close> is 9223372036854775808). The loop of \<^verbatim>\<open>ParseUint\<close>
  stops at the first character that is not a digit, or as soon as the value reaches
  \<open>2 ^ 64\<close> (18446744073709551616).
\<close>

datatype NumError = ErrSyntax | ErrRange

definition digitValue :: "char \<Rightarrow> int" where
  "digitValue c = int (of_char c) - 48"

fun parseDigits :: "int \<Rightarrow> string \<Rightarrow> NumError + int" where
  "parseDigits n [] = Inr n"
| "parseDigits n (c # cs) =
     (if \<not> isDigit c then Inl ErrSyntax
      else if 18446744073709551616 \<le> n * 10 + digitValue c then Inl ErrRange
      else parseDigits (n * 10 + digitValue c) cs)"

definition ParseUint :: "string \<Rightarrow> NumError + int" where
  "ParseUint s = (if s = [] then Inl ErrSyntax else parseDigits 0 s)"

definition ParseInt :: "string \<Rightarrow> NumError + int" where
  "ParseInt s0 =
     (if s0 = [] then Inl ErrSyntax
      else
        let neg = (hd s0 = CHR ''-'');
            s = (if hd s0 = CHR ''+'' \<or> hd s0 = CHR ''-'' then tl s0 else s0)
        in case ParseUint s of
             Inl ErrSyntax \<Rightarrow> Inl ErrSyntax
           | Inl ErrRange \<Rightarrow> Inl ErrRange
           | Inr un \<Rightarrow>
               if \<not> neg \<and> 9223372036854775808 \<le> un then Inl ErrRange
               else if neg \<and> 9223372036854775808 < un then Inl ErrRange
               else Inr (if neg then - un else un))"

definition Atoi :: "string \<Rightarrow> NumError + int" where
  "Atoi s = ParseInt s"

section \<open>Returning a message after a failed attempt (common/post.go, lines 137-169)\<close>

text \<open>
  Modelled from the spec: the declarations of \<^verbatim>\<open>SendEvent\<close>, of its client and
  worker and of \<^verbatim>\<open>SendEventResult\<close> are in files of the repository other than
  common/post.go. The spec gives the event as a message, an optional session handle with
  a \<^verbatim>\<open>Reset\<close> capability and a result channel that takes one of two verdicts.
  \<^verbatim>\<open>ReturnMail\<close> reads \<^verbatim>\<open>event.Client\<close> and \<^verbatim>\<open>event.Client.Worker\<close>, both of
  which may be nil, calls \<^verbatim>\<open>Reset\<close> on the worker and sends on \<^verbatim>\<open>event.Result\<close>.
  The worker is the number of times \<^verbatim>\<open>Reset\<close> was called on it, the channel the
  values sent on it, oldest first (a reader is taken to be there, as the spec requires of
  the caller).
\<close>

datatype SendEventResult = DelaySendEventResult | ErrorSendEventResult

record Worker =
  resetCalls :: nat

definition Reset :: "Worker \<Rightarrow> Worker" where
  "Reset w = w\<lparr>resetCalls := resetCalls w + 1\<rparr>"

record SmtpClient =
  Worker :: "Worker option"

record SendEvent =
  Client :: "SmtpClient option"
  Message :: MailMessage
  Result :: "SendEventResult list"

definition send :: "SendEvent \<Rightarrow> SendEventResult \<Rightarrow> SendEvent" where
  "send event v = event\<lparr>Result := Result event @ [v]\<rparr>"

text \<open>Reading a slice at an index panics when the index is out of range.\<close>

datatype panic = IndexOutOfRange

definition index :: "'a list \<Rightarrow> nat \<Rightarrow> panic + 'a" where
  "index xs i = (if i < length xs then Inr (xs ! i) else Inl IndexOutOfRange)"

text \<open>
  \<^verbatim>\<open>func ReturnMail(event *SendEvent, err error)\<close>, in its three parts: the error
  code is looked for in the text of the error, the worker of the client is reset, and the
  verdict is sent. A nil \<^verbatim>\<open>err\<close> is \<open>None\<close>. The result is the event after the call,
  or the panic that ended it.
\<close>

definition ReturnMail :: "SendEvent \<Rightarrow> error option \<Rightarrow> panic + SendEvent" where
  "ReturnMail event err =
     (case
        (case err of
           None \<Rightarrow> Inr event
         | Some e0 \<Rightarrow>
             let errorMessage = error_Error e0;
                 parts = Split errorMessage '' ''
             in if 0 < length parts
                then (case index parts 0 of
                        Inl p \<Rightarrow> Inl p
                      | Inr part \<Rightarrow>
                          (case Atoi (TrimSpace part) of
                             Inr code \<Rightarrow>
                               Inr (event\<lparr>Message := (SendEvent.Message event)
                                      \<lparr>Error := Some \<lparr>MailError.Message = errorMessage, Code = code\<rparr>\<rparr>\<rparr>)
                           | Inl e \<Rightarrow> Inr event))
                else Inr event)
      of
        Inl p \<Rightarrow> Inl p
      | Inr event1 \<Rightarrow>
          let event2 =
                (case Client event1 of
                   None \<Rightarrow> event1
                 | Some client \<Rightarrow>
                     (case Worker client of
                        None \<Rightarrow> event1
                      | Some worker \<Rightarrow>
                          event1\<lparr>Client := Some (client\<lparr>Worker := Some (Reset worker)\<rparr>)\<rparr>))
          in if Error (SendEvent.Message event2) = None
             then Inr (send event2 DelaySendEventResult)
             else Inr (send event2 ErrorSendEventResult))"

section \<open>Vocabulary of the properties\<close>

text \<open>The documented defaults of the timeout profile, in nanoseconds.\<close>

definition seconds :: "nat \<Rightarrow> Duration" where
  "seconds n = of_nat (n * 1000000000)"

definition minutes :: "nat \<Rightarrow> Duration" where
  "minutes n = of_nat (n * 60000000000)"

text \<open>
  The three parts of an address that the pattern accepts, written \<open>l\<close>, \<^verbatim>\<open>@\<close>, \<open>a\<close>,
  dot, \<open>t\<close>: a local part \<open>l\<close> of word characters and \<^verbatim>\<open>. % + -\<close>, a part \<open>a\<close> of
  word characters and \<^verbatim>\<open>. -\<close>, and a last label \<open>t\<close> of two to four word characters.
  A word character is a letter, a digit or the underscore.
\<close>

definition wellFormed :: "string \<Rightarrow> string \<Rightarrow> string \<Rightarrow> bool" where
  "wellFormed l a t \<longleftrightarrow>
     l \<noteq> [] \<and> list_all (\<lambda>c. isWordChar c \<or> c \<in> set ''.%+-'') l
     \<and> a \<noteq> [] \<and> list_all (\<lambda>c. isWordChar c \<or> c \<in> set ''.-'') a
     \<and> 2 \<le> length t \<and> length t \<le> 4 \<and> list_all isWordChar t"

text \<open>What follows the first \<^verbatim>\<open>@\<close> of an address, and what follows the last dot of a domain.\<close>

definition afterAt :: "string \<Rightarrow> string" where
  "afterAt s = drop (Suc (length (takeWhile (\<lambda>c. c \<noteq> CHR ''@'') s))) s"

definition topLabel :: "string \<Rightarrow> string" where
  "topLabel d = rev (takeWhile (\<lambda>c. c \<noteq> CHR ''.'') (rev d))"

text \<open>The two classes of the pattern.\<close>

definition localClass :: "classItem list" where
  "localClass = [PerlWord, PerlDigit, Lit CHR ''.'', Lit CHR ''_'', Lit CHR ''%'',
                 Lit CHR ''+'', Lit CHR ''-'']"

definition domainClass :: "classItem list" where
  "domainClass = [PerlWord, PerlDigit, Lit CHR ''.'', Lit CHR ''-'']"

text \<open>A clock set between 1970 and 2262, the years in which \<^verbatim>\<open>UnixNano\<close> is defined.\<close>

definition clockInRange :: "Time \<Rightarrow> bool" where
  "clockInRange t \<longleftrightarrow> 0 < sinceEpoch t \<and> sinceEpoch t < 9223372036854775808"

text \<open>The value of a string of decimal digits.\<close>

definition decimal :: "string \<Rightarrow> int" where
  "decimal ds = foldl (\<lambda>n c. n * 10 + digitValue c) 0 ds"

text \<open>
  The text of an error up to its first space, and the classified error that
  \<^verbatim>\<open>ReturnMail\<close> makes of an error: none for a nil error and for a text whose first
  part, trimmed, is not an integer.
\<close>

definition firstPart :: "string \<Rightarrow> string" where
  "firstPart s = takeWhile (\<lambda>c. c \<noteq> CHR '' '') s"

definition classify :: "error option \<Rightarrow> MailError option" where
  "classify err =
     (case err of
        None \<Rightarrow> None
      | Some e \<Rightarrow>
          (case Atoi (TrimSpace (firstPart (error_Error e))) of
             Inl x \<Rightarrow> None
           | Inr code \<Rightarrow> Some \<lparr>MailError.Message = error_Error e, Code = code\<rparr>))"

text \<open>
  The first token of a text when the text is cut at every white-space character, not
  only at the space.
\<close>

definition firstWhitespaceToken :: "string \<Rightarrow> string" where
  "firstWhitespaceToken s = takeWhile (\<lambda>c. [c] \<notin> set whiteSpace) s"

text \<open>A message as it is before \<^verbatim>\<open>Init\<close>, and an event that carries it.\<close>

definition newMessage :: "string \<Rightarrow> string \<Rightarrow> string \<Rightarrow> MailMessage" where
  "newMessage envelope recipient body =
     \<lparr>Id = 0, Envelope = envelope, Recipient = recipient, Body = body, HostnameFrom = [],
      HostnameTo = [], CreatedDate = zeroTime, BindingType = UnknownDelayedBinding,
      Error = None\<rparr>"

definition newEvent :: "Worker option option \<Rightarrow> MailMessage \<Rightarrow> SendEvent" where
  "newEvent session m =
     \<lparr>Client = map_option (\<lambda>w. \<lparr>Worker = w\<rparr>) session, Message = m, Result = []\<rparr>"

section \<open>Properties of the timeout profile\<close>

lemma durations_unfolded:
  "time_Second = 1000000000" "time_Minute = 60000000000"
  by (simp_all add: time_Minute_def time_Second_def time_Millisecond_def
      time_Microsecond_def time_Nanosecond_def)

lemma Timeout_Init_fields:
  "Sleep (Timeout_Init t) = (if Sleep t = 0 then 1000000000 else Sleep t)"
  "Waiting (Timeout_Init t) = (if Waiting t = 0 then 30000000000 else Waiting t)"
  "Connection (Timeout_Init t) = (if Connection t = 0 then 300000000000 else Connection t)"
  "Hello (Timeout_Init t) = (if Hello t = 0 then 300000000000 else Hello t)"
  "Mail (Timeout_Init t) = (if Mail t = 0 then 300000000000 else Mail t)"
  "Rcpt (Timeout_Init t) = (if Rcpt t = 0 then 300000000000 else Rcpt t)"
  "Data (Timeout_Init t) = (if Data t = 0 then 600000000000 else Data t)"
  "Timeout.more (Timeout_Init t) = Timeout.more t"
  by (simp_all add: Timeout_Init_def Let_def durations_unfolded)

lemma Timeout_Init_fixed:
  assumes "Sleep t \<noteq> 0" "Waiting t \<noteq> 0" "Connection t \<noteq> 0" "Hello t \<noteq> 0"
    "Mail t \<noteq> 0" "Rcpt t \<noteq> 0" "Data t \<noteq> 0"
  shows "Timeout_Init t = t"
  using assms by (simp add: Timeout_Init_def Let_def)

lemma Timeout_Init_nonzero:
  "Sleep (Timeout_Init t) \<noteq> 0" "Waiting (Timeout_Init t) \<noteq> 0"
  "Connection (Timeout_Init t) \<noteq> 0" "Hello (Timeout_Init t) \<noteq> 0"
  "Mail (Timeout_Init t) \<noteq> 0" "Rcpt (Timeout_Init t) \<noteq> 0"
  "Data (Timeout_Init t) \<noteq> 0"
  by (simp_all add: Timeout_Init_fields)

text \<open>
  Claim C7. \<^verbatim>\<open>Timeout.Init\<close> gives each zero-valued field its default (Sleep 1s,
  Waiting 30s, Connection 5m, Hello 5m, Mail 5m, Rcpt 5m, Data 10m), leaves every
  non-zero field as it was, leaves all seven fields non-zero, and is idempotent: a second
  call changes nothing.
\<close>

theorem Timeout_Init_defaults_idempotent:
  "Sleep (Timeout_Init t) = (if Sleep t = 0 then seconds 1 else Sleep t)
   \<and> Waiting (Timeout_Init t) = (if Waiting t = 0 then seconds 30 else Waiting t)
   \<and> Connection (Timeout_Init t) = (if Connection t = 0 then minutes 5 else Connection t)
   \<and> Hello (Timeout_Init t) = (if Hello t = 0 then minutes 5 else Hello t)
   \<and> Mail (Timeout_Init t) = (if Mail t = 0 then minutes 5 else Mail t)
   \<and> Rcpt (Timeout_Init t) = (if Rcpt t = 0 then minutes 5 else Rcpt t)
   \<and> Data (Timeout_Init t) = (if Data t = 0 then minutes 10 else Data t)
   \<and> Sleep (Timeout_Init t) \<noteq> 0 \<and> Waiting (Timeout_Init t) \<noteq> 0
   \<and> Connection (Timeout_Init t) \<noteq> 0 \<and> Hello (Timeout_Init t) \<noteq> 0
   \<and> Mail (Timeout_Init t) \<noteq> 0 \<and> Rcpt (Timeout_Init t) \<noteq> 0
   \<and> Data (Timeout_Init t) \<noteq> 0
   \<and> Timeout_Init (Timeout_Init t) = Timeout_Init t"
proof -
  have "Timeout_Init (Timeout_Init t) = Timeout_Init t"
    by (rule Timeout_Init_fixed) (rule Timeout_Init_nonzero)+
  moreover have "Sleep (Timeout_Init t) = (if Sleep t = 0 then seconds 1 else Sleep t)"
    by (simp add: Timeout_Init_fields seconds_def)
  moreover have "Waiting (Timeout_Init t) = (if Waiting t = 0 then seconds 30 else Waiting t)"
    by (simp add: Timeout_Init_fields seconds_def)
  moreover have "Connection (Timeout_Init t) = (if Connection t = 0 then minutes 5 else Connection t)"
    by (simp add: Timeout_Init_fields minutes_def)
  moreover have "Hello (Timeout_Init t) = (if Hello t = 0 then minutes 5 else Hello t)"
    by (simp add: Timeout_Init_fields minutes_def)
  moreover have "Mail (Timeout_Init t) = (if Mail t = 0 then minutes 5 else Mail t)"
    by (simp add: Timeout_Init_fields minutes_def)
  moreover have "Rcpt (Timeout_Init t) = (if Rcpt t = 0 then minutes 5 else Rcpt t)"
    by (simp add: Timeout_Init_fields minutes_def)
  moreover have "Data (Timeout_Init t) = (if Data t = 0 then minutes 10 else Data t)"
    by (simp add: Timeout_Init_fields minutes_def)
  ultimately show ?thesis
    using Timeout_Init_nonzero [of t] by blast
qed

text \<open>
  A partially configured profile: the two zero fields are filled in, the configured
  ones are kept, and a second call returns the same profile.
\<close>

theorem Timeout_Init_defaults_idempotent_witness:
  "Timeout_Init \<lparr>Sleep = 0, Waiting = 7, Connection = 1, Hello = 2, Mail = 3, Rcpt = 4, Data = 0\<rparr>
     = \<lparr>Sleep = 1000000000, Waiting = 7, Connection = 1, Hello = 2, Mail = 3, Rcpt = 4,
        Data = 600000000000\<rparr>
   \<and> Timeout_Init (Timeout_Init
        \<lparr>Sleep = 0, Waiting = 7, Connection = 1, Hello = 2, Mail = 3, Rcpt = 4, Data = 0\<rparr>)
     = \<lparr>Sleep = 1000000000, Waiting = 7, Connection = 1, Hello = 2, Mail = 3, Rcpt = 4,
        Data = 600000000000\<rparr>"
  using Timeout_Init_defaults_idempotent
    [of "\<lparr>Sleep = 0, Waiting = 7, Connection = 1, Hello = 2, Mail = 3, Rcpt = 4, Data = 0\<rparr>"]
  by (simp add: seconds_def minutes_def Timeout_Init_def Let_def durations_unfolded)

section \<open>Properties of the address parser\<close>

declare Split.simps [simp del] allMatches.simps [simp del]
  TrimLeftSpace.simps [simp del] TrimRightSpace.simps [simp del]

subsection \<open>The matcher on the nodes of the pattern\<close>

lemma le_length_takeWhile:
  "k \<le> length (takeWhile P xs) \<longleftrightarrow> k \<le> length xs \<and> (\<forall>x\<in>set (take k xs). P x)"
proof (induction xs arbitrary: k)
  case Nil
  then show ?case by simp
next
  case (Cons x xs)
  then show ?case by (cases k) auto
qed

lemma in_run_Cons:
  "x \<in> set (run s (n # ns) st) \<longleftrightarrow> (\<exists>st'\<in>set (step s n st). x \<in> set (run s ns st'))"
  by auto

lemma in_step_OneOrMore:
  "st' \<in> set (step s (OneOrMore cls) (p, caps)) \<longleftrightarrow>
     (\<exists>k. 1 \<le> k \<and> k \<le> length (takeWhile (inClass cls) (drop p s)) \<and> st' = (p + k, caps))"
  by (auto simp: Let_def)

lemma in_step_Between:
  "st' \<in> set (step s (Between lo hi cls) (p, caps)) \<longleftrightarrow>
     (\<exists>k. lo \<le> k \<and> k \<le> hi \<and> k \<le> length (takeWhile (inClass cls) (drop p s))
        \<and> st' = (p + k, caps))"
  by (auto simp: Let_def)

lemma in_step_Capture:
  "(q, c) \<in> set (step s (Capture ns) (p, caps)) \<longleftrightarrow>
     (\<exists>c'. (q, c') \<in> set (run s ns (p, caps)) \<and> c = c' @ [take (q - p) (drop p s)])"
  by force

lemma in_run_group:
  "(q, c) \<in> set (run s [OneOrMore domainClass, Literal CHR ''.'', Between 2 4 [PerlWord]] (p, caps)) \<longleftrightarrow>
     (\<exists>k2 k3.
        1 \<le> k2 \<and> k2 \<le> length (takeWhile (inClass domainClass) (drop p s))
        \<and> p + k2 < length s \<and> s ! (p + k2) = CHR ''.''
        \<and> 2 \<le> k3 \<and> k3 \<le> 4
        \<and> k3 \<le> length (takeWhile (inClass [PerlWord]) (drop (p + k2 + 1) s))
        \<and> q = p + k2 + 1 + k3 \<and> c = caps)"
  apply (simp add: Bex_def in_step_OneOrMore in_step_Between del: step.simps(4) step.simps(5))
  apply (auto simp: ac_simps)
  done

lemma EmailRegexp_unfold:
  "EmailRegexp =
     [BeginText, OneOrMore localClass, Literal CHR ''@'',
      Capture [OneOrMore domainClass, Literal CHR ''.'', Between 2 4 [PerlWord]],
      EndText]"
  by (simp add: EmailRegexp_def localClass_def domainClass_def)

text \<open>
  The ways the whole pattern matches from the start of \<open>s\<close>: \<open>k1\<close>, \<open>k2\<close> and \<open>k3\<close>
  are the lengths that the three repetitions take.
\<close>

lemma in_run_Email:
  "(e, caps) \<in> set (run s EmailRegexp (0, [])) \<longleftrightarrow>
     (\<exists>k1 k2 k3.
        1 \<le> k1 \<and> k1 \<le> length (takeWhile (inClass localClass) s)
        \<and> k1 < length s \<and> s ! k1 = CHR ''@''
        \<and> 1 \<le> k2 \<and> k2 \<le> length (takeWhile (inClass domainClass) (drop (k1 + 1) s))
        \<and> k1 + 1 + k2 < length s \<and> s ! (k1 + 1 + k2) = CHR ''.''
        \<and> 2 \<le> k3 \<and> k3 \<le> 4
        \<and> k3 \<le> length (takeWhile (inClass [PerlWord]) (drop (k1 + 1 + k2 + 1) s))
        \<and> k1 + 1 + k2 + 1 + k3 = length s
        \<and> e = length s
        \<and> caps = [drop (k1 + 1) s])"
  (is "?L \<longleftrightarrow> ?R")
proof
  assume ?L
  then obtain k1 q c where k1: "1 \<le> k1" "k1 \<le> length (takeWhile (inClass localClass) s)"
      "k1 < length s" "s ! k1 = CHR ''@''"
    and cap: "(q, c) \<in> set (step s
        (Capture [OneOrMore domainClass, Literal CHR ''.'', Between 2 4 [PerlWord]]) (k1 + 1, []))"
    and fin: "(e, caps) \<in> set (run s [EndText] (q, c))"
    unfolding EmailRegexp_unfold
    apply (simp only: in_run_Cons)
    apply (auto simp add: in_step_OneOrMore
        simp del: step.simps(4) step.simps(5) step.simps(6) run.simps split: if_splits)
    done
  from cap obtain k2 k3 where k23: "1 \<le> k2"
      "k2 \<le> length (takeWhile (inClass domainClass) (drop (k1 + 1) s))"
      "k1 + 1 + k2 < length s" "s ! (k1 + 1 + k2) = CHR ''.''" "2 \<le> k3" "k3 \<le> 4"
      "k3 \<le> length (takeWhile (inClass [PerlWord]) (drop (k1 + 1 + k2 + 1) s))"
      "q = k1 + 1 + k2 + 1 + k3" "c = [take (q - (k1 + 1)) (drop (k1 + 1) s)]"
    unfolding in_step_Capture in_run_group by auto
  from fin have "q = length s" "e = q" "caps = c"
    by (auto split: if_splits)
  with k1 k23 show ?R
    by (intro exI [of _ k1] exI [of _ k2] exI [of _ k3]) auto
next
  assume ?R
  then obtain k1 k2 k3 where k: "1 \<le> k1" "k1 \<le> length (takeWhile (inClass localClass) s)"
      "k1 < length s" "s ! k1 = CHR ''@''"
      "1 \<le> k2" "k2 \<le> length (takeWhile (inClass domainClass) (drop (k1 + 1) s))"
      "k1 + 1 + k2 < length s" "s ! (k1 + 1 + k2) = CHR ''.''" "2 \<le> k3" "k3 \<le> 4"
      "k3 \<le> length (takeWhile (inClass [PerlWord]) (drop (k1 + 1 + k2 + 1) s))"
      "k1 + 1 + k2 + 1 + k3 = length s" "e = length s" "caps = [drop (k1 + 1) s]"
    by blast
  have 1: "(k1, []) \<in> set (step s (OneOrMore localClass) (0, []))"
    unfolding in_step_OneOrMore using k by auto
  have 2: "(k1 + 1, []) \<in> set (step s (Literal CHR ''@'') (k1, []))"
    using k by simp
  have "(length s, []) \<in> set (run s
      [OneOrMore domainClass, Literal CHR ''.'', Between 2 4 [PerlWord]] (k1 + 1, []))"
    unfolding in_run_group using k by (intro exI [of _ k2] exI [of _ k3]) auto
  then have 3: "(length s, caps) \<in> set (step s
      (Capture [OneOrMore domainClass, Literal CHR ''.'', Between 2 4 [PerlWord]]) (k1 + 1, []))"
    unfolding in_step_Capture using k by auto
  have 4: "\<exists>st'\<in>set (step s EndText (length s, caps)). (e, caps) \<in> set (run s [] st')"
    using k by simp
  show ?L
    unfolding EmailRegexp_unfold
    apply (simp only: in_run_Cons)
    apply (rule bexI [of _ "(0, [])"])
     apply (rule bexI [OF _ 1])
     apply (rule bexI [OF _ 2])
     apply (rule bexI [OF _ 3])
     apply (rule 4)
    apply simp
    done
qed

subsection \<open>The addresses that match\<close>

lemma inClass_localClass:
  "inClass localClass c \<longleftrightarrow> isWordChar c \<or> c \<in> set ''.%+-''"
  by (auto simp: inClass_def localClass_def isWordChar_def)

lemma inClass_domainClass:
  "inClass domainClass c \<longleftrightarrow> isWordChar c \<or> c \<in> set ''.-''"
  by (auto simp: inClass_def domainClass_def isWordChar_def)

lemma inClass_PerlWord:
  "inClass [PerlWord] c \<longleftrightarrow> isWordChar c"
  by (simp add: inClass_def)

lemma at_not_in_class:
  "\<not> isWordChar CHR ''@''" "\<not> inClass localClass CHR ''@''" "\<not> inClass domainClass CHR ''@''"
  by (simp_all add: inClass_localClass inClass_domainClass isWordChar_def isDigit_def isLetter_def)

lemma dot_not_word: "\<not> isWordChar CHR ''.''"
  by (simp add: isWordChar_def isDigit_def isLetter_def)

lemma wellFormed_classes:
  "wellFormed l a t \<longleftrightarrow>
     l \<noteq> [] \<and> (\<forall>c\<in>set l. inClass localClass c)
     \<and> a \<noteq> [] \<and> (\<forall>c\<in>set a. inClass domainClass c)
     \<and> 2 \<le> length t \<and> length t \<le> 4 \<and> (\<forall>c\<in>set t. isWordChar c)"
  by (simp only: wellFormed_def list_all_iff inClass_localClass inClass_domainClass)

lemma wellFormed_no_at:
  assumes "wellFormed l a t"
  shows "CHR ''@'' \<notin> set l" "CHR ''@'' \<notin> set a" "CHR ''@'' \<notin> set t" "CHR ''.'' \<notin> set t"
  using assms at_not_in_class dot_not_word unfolding wellFormed_classes by blast+

lemma afterAt_append:
  assumes "CHR ''@'' \<notin> set l"
  shows "afterAt (l @ CHR ''@'' # d) = d"
proof -
  have "takeWhile (\<lambda>c. c \<noteq> CHR ''@'') (l @ CHR ''@'' # d) = l"
    using assms by (auto simp: takeWhile_tail)
  then show ?thesis
    by (simp add: afterAt_def)
qed

lemma run_Email_sound:
  assumes "(e, caps) \<in> set (run s EmailRegexp (0, []))"
  shows "e = length s \<and> caps = [afterAt s]
    \<and> (\<exists>l a t. s = l @ CHR ''@'' # a @ CHR ''.'' # t \<and> wellFormed l a t)"
proof -
  from assms obtain k1 k2 k3 where k: "1 \<le> k1" "k1 \<le> length (takeWhile (inClass localClass) s)"
      "k1 < length s" "s ! k1 = CHR ''@''"
      "1 \<le> k2" "k2 \<le> length (takeWhile (inClass domainClass) (drop (k1 + 1) s))"
      "k1 + 1 + k2 < length s" "s ! (k1 + 1 + k2) = CHR ''.''" "2 \<le> k3" "k3 \<le> 4"
      "k3 \<le> length (takeWhile (inClass [PerlWord]) (drop (k1 + 1 + k2 + 1) s))"
      "k1 + 1 + k2 + 1 + k3 = length s" "e = length s" "caps = [drop (k1 + 1) s]"
    unfolding in_run_Email by blast
  define l where "l = take k1 s"
  define d where "d = drop (k1 + 1) s"
  define a where "a = take k2 d"
  define t where "t = drop (k2 + 1) d"
  have s: "s = l @ CHR ''@'' # d"
    using k(3,4) id_take_nth_drop [of k1 s] by (simp add: l_def d_def)
  have "k2 < length d" "d ! k2 = CHR ''.''"
    using k by (auto simp: d_def)
  then have d: "d = a @ CHR ''.'' # t"
    using id_take_nth_drop [of k2 d] by (simp add: a_def t_def)
  have l: "l \<noteq> []" "\<forall>c\<in>set l. inClass localClass c"
    using k(1,2,3) by (auto simp: l_def le_length_takeWhile)
  have a: "a \<noteq> []" "\<forall>c\<in>set a. inClass domainClass c"
    using k(5,6) \<open>k2 < length d\<close> by (auto simp: a_def d_def le_length_takeWhile)
  have "drop (k1 + 1 + k2 + 1) s = t"
    by (simp add: t_def d_def add.commute add.left_commute)
  with k(11) have "k3 \<le> length t" "\<forall>x\<in>set (take k3 t). isWordChar x"
    by (auto simp: le_length_takeWhile inClass_PerlWord)
  moreover have "length t = k3"
    using k by (simp add: t_def d_def)
  ultimately have t: "2 \<le> length t" "length t \<le> 4" "\<forall>c\<in>set t. isWordChar c"
    using k(9,10) by auto
  have w: "wellFormed l a t"
    using l a t by (simp add: wellFormed_classes)
  then have "afterAt s = d"
    unfolding s by (intro afterAt_append wellFormed_no_at)
  then have "caps = [afterAt s]"
    using k(14) by (simp add: d_def)
  moreover have "s = l @ CHR ''@'' # a @ CHR ''.'' # t"
    using s d by simp
  ultimately show ?thesis
    using k(13) w by blast
qed

lemma run_Email_complete:
  assumes "wellFormed l a t"
  shows "(length (l @ CHR ''@'' # a @ CHR ''.'' # t), [a @ CHR ''.'' # t])
     \<in> set (run (l @ CHR ''@'' # a @ CHR ''.'' # t) EmailRegexp (0, []))"
proof -
  define s where "s = l @ CHR ''@'' # a @ CHR ''.'' # t"
  from assms have w: "l \<noteq> []" "\<forall>c\<in>set l. inClass localClass c" "a \<noteq> []"
    "\<forall>c\<in>set a. inClass domainClass c" "2 \<le> length t" "length t \<le> 4"
    "\<forall>c\<in>set t. isWordChar c"
    by (simp_all add: wellFormed_classes)
  have d1: "drop (length l + 1) s = a @ CHR ''.'' # t"
    by (simp add: s_def)
  have d2: "drop (length l + 1 + length a + 1) s = t"
    by (simp add: s_def)
  have 1: "1 \<le> length l" "length l \<le> length (takeWhile (inClass localClass) s)"
    using w(1,2) by (auto simp: le_length_takeWhile s_def Suc_le_eq)
  have 2: "length l < length s" "s ! length l = CHR ''@''"
    by (simp_all add: s_def)
  have 3: "1 \<le> length a"
    "length a \<le> length (takeWhile (inClass domainClass) (drop (length l + 1) s))"
    using w(3,4) unfolding d1 by (auto simp: le_length_takeWhile Suc_le_eq)
  have 4: "length l + 1 + length a < length s" "s ! (length l + 1 + length a) = CHR ''.''"
    by (simp_all add: s_def nth_append)
  have 5: "length t
      \<le> length (takeWhile (inClass [PerlWord]) (drop (length l + 1 + length a + 1) s))"
    using w(7) unfolding d2 by (auto simp: le_length_takeWhile inClass_PerlWord)
  have 6: "length l + 1 + length a + 1 + length t = length s"
    by (simp add: s_def)
  have "(length s, [drop (length l + 1) s]) \<in> set (run s EmailRegexp (0, []))"
    unfolding in_run_Email
    using 1 2 3 4 5 6 w(5,6)
    by (intro exI [of _ "length l"] exI [of _ "length a"] exI [of _ "length t"] conjI) simp_all
  then show ?thesis
    unfolding d1 unfolding s_def .
qed

subsection \<open>The search for all matches\<close>

lemma run_Email_later: "0 < p \<Longrightarrow> run s EmailRegexp (p, caps) = []"
  by (simp add: EmailRegexp_def)

lemma concat_map_empty: "(\<And>x. x \<in> set xs \<Longrightarrow> f x = []) \<Longrightarrow> concat (map f xs) = []"
  by (induction xs) auto

lemma doExecute_Email_later: "0 < pos \<Longrightarrow> doExecute EmailRegexp s pos = None"
proof -
  assume "0 < pos"
  then have "concat (map (\<lambda>b. map (\<lambda>(e, caps). (b, e, caps)) (run s EmailRegexp (b, [])))
      [pos ..< length s + 1]) = []"
    by (intro concat_map_empty) (auto intro!: run_Email_later)
  then show ?thesis
    by (simp only: doExecute_def list.case)
qed

lemma doExecute_Email_0:
  "doExecute EmailRegexp s 0 =
     (case run s EmailRegexp (0, []) of [] \<Rightarrow> None | (e, caps) # _ \<Rightarrow> Some (0, e, caps))"
proof -
  have "concat (map (\<lambda>b. map (\<lambda>(e, caps). (b, e, caps)) (run s EmailRegexp (b, [])))
      [1 ..< length s + 1]) = []"
    by (intro concat_map_empty) (auto intro!: run_Email_later)
  moreover have "[0 ..< length s + 1] = 0 # [1 ..< length s + 1]"
    by (simp add: upt_rec)
  ultimately have "concat (map (\<lambda>b. map (\<lambda>(e, caps). (b, e, caps)) (run s EmailRegexp (b, [])))
      [0 ..< length s + 1]) = map (\<lambda>(e, caps). (0, e, caps)) (run s EmailRegexp (0, []))"
    by simp
  then show ?thesis
    by (simp add: doExecute_def split: list.splits)
qed

lemma FindAllStringSubmatch_Email:
  "FindAllStringSubmatch EmailRegexp s =
     (if run s EmailRegexp (0, []) = [] then [] else [[s, afterAt s]])"
proof (cases "run s EmailRegexp (0, [])")
  case Nil
  then show ?thesis
    by (simp add: FindAllStringSubmatch_def allMatches.simps [of _ _ 0] doExecute_Email_0)
next
  case (Cons st rest)
  obtain e caps where st: "st = (e, caps)"
    by (cases st)
  with Cons have "(e, caps) \<in> set (run s EmailRegexp (0, []))"
    by simp
  then have e: "e = length s" "caps = [afterAt s]" and "\<exists>l d. s = l @ CHR ''@'' # d"
    using run_Email_sound [of e caps s] by auto
  then have pos: "0 < length s"
    by auto
  have "doExecute EmailRegexp s 0 = Some (0, length s, [afterAt s])"
    using Cons st e by (simp add: doExecute_Email_0)
  moreover have "allMatches EmailRegexp s (length s) (Some (length s)) = []"
    using pos by (simp add: allMatches.simps [of _ _ "length s"] doExecute_Email_later)
  ultimately show ?thesis
    using pos Cons by (simp add: FindAllStringSubmatch_def allMatches.simps [of _ _ 0])
qed

subsection \<open>The parser\<close>

lemma getHostnameFromEmail_run:
  "getHostnameFromEmail s =
     (if run s EmailRegexp (0, []) = [] then Inl (errors_New ''invalid email address'')
      else Inr (afterAt s))"
  by (simp add: getHostnameFromEmail_def FindAllStringSubmatch_Email)

lemma getHostnameFromEmail_wellFormed:
  "wellFormed l a t \<Longrightarrow>
     getHostnameFromEmail (l @ CHR ''@'' # a @ CHR ''.'' # t) = Inr (a @ CHR ''.'' # t)"
proof -
  assume w: "wellFormed l a t"
  then have "afterAt (l @ CHR ''@'' # a @ CHR ''.'' # t) = a @ CHR ''.'' # t"
    by (intro afterAt_append wellFormed_no_at)
  moreover have "run (l @ CHR ''@'' # a @ CHR ''.'' # t) EmailRegexp (0, []) \<noteq> []"
    using run_Email_complete [OF w] by auto
  ultimately show ?thesis
    by (simp add: getHostnameFromEmail_run)
qed

lemma getHostnameFromEmail_Inr:
  "getHostnameFromEmail s = Inr d \<Longrightarrow>
     \<exists>l a t. s = l @ CHR ''@'' # d \<and> d = a @ CHR ''.'' # t \<and> wellFormed l a t"
proof -
  assume "getHostnameFromEmail s = Inr d"
  then have ne: "run s EmailRegexp (0, []) \<noteq> []" and d: "d = afterAt s"
    by (auto simp: getHostnameFromEmail_run split: if_splits)
  then obtain e caps where "(e, caps) \<in> set (run s EmailRegexp (0, []))"
    by (cases "run s EmailRegexp (0, [])") auto
  then obtain l a t where s: "s = l @ CHR ''@'' # a @ CHR ''.'' # t" and w: "wellFormed l a t"
    using run_Email_sound [of e caps s] by auto
  from w have "afterAt s = a @ CHR ''.'' # t"
    unfolding s by (intro afterAt_append wellFormed_no_at)
  with s w d show ?thesis
    by auto
qed

lemma getHostnameFromEmail_cases:
  "getHostnameFromEmail s = Inl (errors_New ''invalid email address'')
   \<or> getHostnameFromEmail s = Inr (afterAt s)"
  by (simp add: getHostnameFromEmail_run)

lemma getHostnameFromEmail_Inl_iff:
  "getHostnameFromEmail s = Inl (errors_New ''invalid email address'')
     \<longleftrightarrow> (\<forall>h. getHostnameFromEmail s \<noteq> Inr h)"
  using getHostnameFromEmail_cases [of s] by auto

lemma getHostnameFromEmail_no_at:
  assumes "CHR ''@'' \<notin> set s"
  shows "getHostnameFromEmail s = Inl (errors_New ''invalid email address'')"
proof -
  have "getHostnameFromEmail s \<noteq> Inr h" for h
    using getHostnameFromEmail_Inr [of s h] assms by auto
  then show ?thesis
    by (simp add: getHostnameFromEmail_Inl_iff)
qed

lemma getHostnameFromEmail_many_at:
  assumes "1 < count_list s CHR ''@''"
  shows "getHostnameFromEmail s = Inl (errors_New ''invalid email address'')"
proof -
  have "getHostnameFromEmail s \<noteq> Inr h" for h
  proof
    assume "getHostnameFromEmail s = Inr h"
    then obtain l a t where s: "s = l @ CHR ''@'' # h" "h = a @ CHR ''.'' # t"
      and w: "wellFormed l a t"
      using getHostnameFromEmail_Inr by blast
    have "count_list l CHR ''@'' = 0" "count_list a CHR ''@'' = 0" "count_list t CHR ''@'' = 0"
      using wellFormed_no_at [OF w] by (simp_all add: count_list_0_iff)
    then have "count_list s CHR ''@'' = 1"
      by (simp add: s)
    with assms show False
      by simp
  qed
  then show ?thesis
    by (simp add: getHostnameFromEmail_Inl_iff)
qed

lemma getHostnameFromEmail_no_dot:
  assumes "CHR ''.'' \<notin> set (afterAt s)"
  shows "getHostnameFromEmail s = Inl (errors_New ''invalid email address'')"
proof -
  have "getHostnameFromEmail s \<noteq> Inr h" for h
  proof
    assume h: "getHostnameFromEmail s = Inr h"
    then have "h = afterAt s"
      using getHostnameFromEmail_cases [of s] by auto
    moreover from h have "CHR ''.'' \<in> set h"
      using getHostnameFromEmail_Inr [of s h] by auto
    ultimately show False
      using assms by simp
  qed
  then show ?thesis
    by (simp add: getHostnameFromEmail_Inl_iff)
qed

text \<open>
  Claim C6, as amended. For every address string, the parser returns the part after the
  \<^verbatim>\<open>@\<close> exactly when the string is \<open>l\<close>, \<^verbatim>\<open>@\<close>, \<open>a\<close>, a dot and \<open>t\<close> with \<open>l\<close> a
  non-empty run of word characters and \<^verbatim>\<open>. % + -\<close>, \<open>a\<close> a non-empty run of word
  characters, dots and hyphens, and \<open>t\<close> a last label of two to four word characters
  (letters, digits or underscores; not letters only). Every other string fails with the
  error \<^verbatim>\<open>invalid email address\<close>: among them the strings with no \<^verbatim>\<open>@\<close>, with more
  than one, and with no dot after it.
\<close>

theorem getHostnameFromEmail_pattern:
  "(getHostnameFromEmail email = Inr d \<longleftrightarrow>
      (\<exists>l a t. email = l @ ''@'' @ d \<and> d = a @ ''.'' @ t \<and> wellFormed l a t))
   \<and> (getHostnameFromEmail email = Inl (errors_New ''invalid email address'') \<longleftrightarrow>
        (\<forall>h. getHostnameFromEmail email \<noteq> Inr h))
   \<and> (CHR ''@'' \<notin> set email \<longrightarrow>
        getHostnameFromEmail email = Inl (errors_New ''invalid email address''))
   \<and> (1 < count_list email CHR ''@'' \<longrightarrow>
        getHostnameFromEmail email = Inl (errors_New ''invalid email address''))
   \<and> (CHR ''.'' \<notin> set (afterAt email) \<longrightarrow>
        getHostnameFromEmail email = Inl (errors_New ''invalid email address''))"
proof -
  have "getHostnameFromEmail email = Inr d \<longleftrightarrow>
      (\<exists>l a t. email = l @ ''@'' @ d \<and> d = a @ ''.'' @ t \<and> wellFormed l a t)"
  proof
    assume "getHostnameFromEmail email = Inr d"
    then show "\<exists>l a t. email = l @ ''@'' @ d \<and> d = a @ ''.'' @ t \<and> wellFormed l a t"
      using getHostnameFromEmail_Inr [of email d] by simp
  next
    assume "\<exists>l a t. email = l @ ''@'' @ d \<and> d = a @ ''.'' @ t \<and> wellFormed l a t"
    then show "getHostnameFromEmail email = Inr d"
      using getHostnameFromEmail_wellFormed by auto
  qed
  then show ?thesis
    using getHostnameFromEmail_Inl_iff [of email] getHostnameFromEmail_no_at [of email]
      getHostnameFromEmail_many_at [of email] getHostnameFromEmail_no_dot [of email]
    by blast
qed

text \<open>
  The address of the claim is parsed; an address without \<^verbatim>\<open>@\<close>, one with two and
  one without a top-level label are refused.
\<close>

theorem getHostnameFromEmail_pattern_witness:
  "getHostnameFromEmail ''local@domain.tld'' = Inr ''domain.tld''
   \<and> getHostnameFromEmail ''local.domain.tld'' = Inl (errors_New ''invalid email address'')
   \<and> getHostnameFromEmail ''lo@cal@domain.tld'' = Inl (errors_New ''invalid email address'')
   \<and> getHostnameFromEmail ''local@domain'' = Inl (errors_New ''invalid email address'')"
proof -
  have "wellFormed ''local'' ''domain'' ''tld''"
    by (simp add: wellFormed_def isWordChar_def isLetter_def isDigit_def)
  then have "\<exists>l a t. ''local@domain.tld'' = l @ ''@'' @ ''domain.tld''
      \<and> ''domain.tld'' = a @ ''.'' @ t \<and> wellFormed l a t"
    by (intro exI [of _ "''local''"] exI [of _ "''domain''"] exI [of _ "''tld''"]) simp
  then have "getHostnameFromEmail ''local@domain.tld'' = Inr ''domain.tld''"
    using getHostnameFromEmail_pattern [of "''local@domain.tld''" "''domain.tld''"] by blast
  moreover have "getHostnameFromEmail ''local.domain.tld''
      = Inl (errors_New ''invalid email address'')"
    using getHostnameFromEmail_pattern [of "''local.domain.tld''"] by simp
  moreover have "getHostnameFromEmail ''lo@cal@domain.tld''
      = Inl (errors_New ''invalid email address'')"
    using getHostnameFromEmail_pattern [of "''lo@cal@domain.tld''"] by simp
  moreover have "getHostnameFromEmail ''local@domain''
      = Inl (errors_New ''invalid email address'')"
    using getHostnameFromEmail_pattern [of "''local@domain''"] by (simp add: afterAt_def)
  ultimately show ?thesis
    by blast
qed

text \<open>
  The claim as it was stated fails: the last label need not be made of letters. The
  address \<^verbatim>\<open>user@host.123\<close> is accepted, and its top-level label \<^verbatim>\<open>123\<close> holds no
  letter at all.
\<close>

theorem getHostnameFromEmail_letters_counterexample:
  "getHostnameFromEmail ''user@host.123'' = Inr ''host.123''
   \<and> topLabel ''host.123'' = ''123''
   \<and> \<not> list_ex isLetter ''123''"
proof -
  have "wellFormed ''user'' ''host'' ''123''"
    by (simp add: wellFormed_def isWordChar_def isLetter_def isDigit_def)
  then have "getHostnameFromEmail ''user@host.123'' = Inr ''host.123''"
    using getHostnameFromEmail_wellFormed [of "''user''" "''host''" "''123''"] by simp
  then show ?thesis
    by (simp add: topLabel_def isLetter_def)
qed

section \<open>Properties of the initialisation of a message\<close>

lemma MailMessage_Init_eq:
  "MailMessage_Init m now1 now2 =
     m\<lparr>Id := UnixNano now1, CreatedDate := now2,
       HostnameFrom := (case getHostnameFromEmail (Envelope m) of
                          Inr hostname \<Rightarrow> hostname | Inl e \<Rightarrow> HostnameFrom m),
       HostnameTo := (case getHostnameFromEmail (Recipient m) of
                        Inr hostname \<Rightarrow> hostname | Inl e \<Rightarrow> HostnameTo m)\<rparr>"
  by (simp add: MailMessage_Init_def Let_def split: sum.splits)

text \<open>On a clock in range the id, read as a signed 64-bit integer, is the reading itself.\<close>

lemma UnixNano_sint:
  assumes "clockInRange t"
  shows "sint (UnixNano t) = sinceEpoch t"
proof -
  from assms have "- (2 ^ 63) \<le> sinceEpoch t" "sinceEpoch t < 2 ^ 63"
    by (simp_all add: clockInRange_def)
  then have "signed_take_bit 63 (sinceEpoch t) = sinceEpoch t"
    by (rule signed_take_bit_int_eq_self)
  then show ?thesis
    by (simp add: UnixNano_def sint_sbintrunc')
qed

lemma UnixNano_nonzero:
  assumes "clockInRange t"
  shows "UnixNano t \<noteq> 0"
proof
  assume "UnixNano t = 0"
  then have "sint (UnixNano t) = 0"
    by simp
  with assms show False
    by (simp add: UnixNano_sint clockInRange_def)
qed

lemma UnixNano_inject:
  assumes "clockInRange t" "clockInRange t'" "UnixNano t = UnixNano t'"
  shows "sinceEpoch t = sinceEpoch t'"
  using assms UnixNano_sint [of t] UnixNano_sint [of t'] by simp

lemma clockInRange_not_zero:
  assumes "clockInRange t"
  shows "\<not> IsZero t"
  using assms by (auto simp: clockInRange_def IsZero_def zeroTime_def)

text \<open>
  Claim C8, as amended. \<^verbatim>\<open>Message.Init\<close> replaces the id by the first reading of the
  clock, in nanoseconds since 1970 as a 64-bit integer, and the creation date by the
  second reading. On a clock set between 1970 and 2262 the id is the number of
  nanoseconds itself, it is not zero, two different readings give two different ids, and
  the creation date is not the zero time. \<^verbatim>\<open>Init\<close> sets \<^verbatim>\<open>HostnameFrom\<close> to the
  domain of the envelope address and \<^verbatim>\<open>HostnameTo\<close> to the domain of the recipient
  address when the address is parsed; when it is not, it leaves the field as it was before
  the call, whatever it held. It has no failing outcome and changes no other field.
\<close>

theorem MailMessage_Init_fields:
  "Id (MailMessage_Init m now1 now2) = word_of_int (sinceEpoch now1)
   \<and> CreatedDate (MailMessage_Init m now1 now2) = now2
   \<and> (clockInRange now1 \<longrightarrow>
         sint (Id (MailMessage_Init m now1 now2)) = sinceEpoch now1
         \<and> Id (MailMessage_Init m now1 now2) \<noteq> 0)
   \<and> (\<forall>m' t t'. clockInRange now1 \<and> clockInRange t \<and> sinceEpoch t \<noteq> sinceEpoch now1 \<longrightarrow>
         Id (MailMessage_Init m' t t') \<noteq> Id (MailMessage_Init m now1 now2))
   \<and> (clockInRange now2 \<longrightarrow> \<not> IsZero (CreatedDate (MailMessage_Init m now1 now2)))
   \<and> HostnameFrom (MailMessage_Init m now1 now2) =
        (case getHostnameFromEmail (Envelope m) of
           Inr hostname \<Rightarrow> hostname | Inl e \<Rightarrow> HostnameFrom m)
   \<and> HostnameTo (MailMessage_Init m now1 now2) =
        (case getHostnameFromEmail (Recipient m) of
           Inr hostname \<Rightarrow> hostname | Inl e \<Rightarrow> HostnameTo m)
   \<and> (\<forall>l a t. Envelope m = l @ ''@'' @ a @ ''.'' @ t \<and> wellFormed l a t \<longrightarrow>
         HostnameFrom (MailMessage_Init m now1 now2) = a @ ''.'' @ t)
   \<and> (\<forall>l a t. Recipient m = l @ ''@'' @ a @ ''.'' @ t \<and> wellFormed l a t \<longrightarrow>
         HostnameTo (MailMessage_Init m now1 now2) = a @ ''.'' @ t)
   \<and> ((\<forall>h. getHostnameFromEmail (Envelope m) \<noteq> Inr h) \<longrightarrow>
         HostnameFrom (MailMessage_Init m now1 now2) = HostnameFrom m)
   \<and> ((\<forall>h. getHostnameFromEmail (Recipient m) \<noteq> Inr h) \<longrightarrow>
         HostnameTo (MailMessage_Init m now1 now2) = HostnameTo m)
   \<and> Envelope (MailMessage_Init m now1 now2) = Envelope m
   \<and> Recipient (MailMessage_Init m now1 now2) = Recipient m
   \<and> Body (MailMessage_Init m now1 now2) = Body m
   \<and> BindingType (MailMessage_Init m now1 now2) = BindingType m
   \<and> Error (MailMessage_Init m now1 now2) = Error m"
proof -
  have "Id (MailMessage_Init m now1 now2) = word_of_int (sinceEpoch now1)"
    by (simp add: MailMessage_Init_eq UnixNano_def)
  moreover have "clockInRange now1 \<longrightarrow>
         sint (Id (MailMessage_Init m now1 now2)) = sinceEpoch now1
         \<and> Id (MailMessage_Init m now1 now2) \<noteq> 0"
    by (simp add: MailMessage_Init_eq UnixNano_nonzero UnixNano_sint)
  moreover have "\<forall>m' t t'. clockInRange now1 \<and> clockInRange t
         \<and> sinceEpoch t \<noteq> sinceEpoch now1 \<longrightarrow>
         Id (MailMessage_Init m' t t') \<noteq> Id (MailMessage_Init m now1 now2)"
    using UnixNano_inject by (auto simp: MailMessage_Init_eq)
  moreover have "clockInRange now2 \<longrightarrow> \<not> IsZero (CreatedDate (MailMessage_Init m now1 now2))"
    by (simp add: MailMessage_Init_eq clockInRange_not_zero)
  moreover have "\<forall>l a t. Envelope m = l @ ''@'' @ a @ ''.'' @ t \<and> wellFormed l a t \<longrightarrow>
         HostnameFrom (MailMessage_Init m now1 now2) = a @ ''.'' @ t"
    using getHostnameFromEmail_wellFormed by (auto simp: MailMessage_Init_eq)
  moreover have "\<forall>l a t. Recipient m = l @ ''@'' @ a @ ''.'' @ t \<and> wellFormed l a t \<longrightarrow>
         HostnameTo (MailMessage_Init m now1 now2) = a @ ''.'' @ t"
    using getHostnameFromEmail_wellFormed by (auto simp: MailMessage_Init_eq)
  moreover have "(\<forall>h. getHostnameFromEmail (Envelope m) \<noteq> Inr h) \<longrightarrow>
         HostnameFrom (MailMessage_Init m now1 now2) = HostnameFrom m"
    by (auto simp: MailMessage_Init_eq split: sum.splits)
  moreover have "(\<forall>h. getHostnameFromEmail (Recipient m) \<noteq> Inr h) \<longrightarrow>
         HostnameTo (MailMessage_Init m now1 now2) = HostnameTo m"
    by (auto simp: MailMessage_Init_eq split: sum.splits)
  ultimately show ?thesis
    by (simp add: MailMessage_Init_eq)
qed

text \<open>
  The message of the claim, initialised on 19 October 2015: the two host names, an id
  that is the reading of the clock and differs from the id given 500 nanoseconds later,
  and a creation date that is not zero. A new message whose envelope is not an address
  has no host name of the sender afterwards.
\<close>

theorem MailMessage_Init_fields_witness:
  "HostnameFrom (MailMessage_Init (newMessage ''a@x.com'' ''b@y.org'' ''body'')
       \<lparr>sinceEpoch = 1445212800000000000\<rparr> \<lparr>sinceEpoch = 1445212800000000500\<rparr>) = ''x.com''
   \<and> HostnameTo (MailMessage_Init (newMessage ''a@x.com'' ''b@y.org'' ''body'')
       \<lparr>sinceEpoch = 1445212800000000000\<rparr> \<lparr>sinceEpoch = 1445212800000000500\<rparr>) = ''y.org''
   \<and> sint (Id (MailMessage_Init (newMessage ''a@x.com'' ''b@y.org'' ''body'')
       \<lparr>sinceEpoch = 1445212800000000000\<rparr> \<lparr>sinceEpoch = 1445212800000000500\<rparr>))
       = 1445212800000000000
   \<and> Id (MailMessage_Init (newMessage ''a@x.com'' ''b@y.org'' ''body'')
       \<lparr>sinceEpoch = 1445212800000000000\<rparr> \<lparr>sinceEpoch = 1445212800000000500\<rparr>) \<noteq> 0
   \<and> Id (MailMessage_Init (newMessage ''c@z.net'' ''b@y.org'' ''other'')
       \<lparr>sinceEpoch = 1445212800000000500\<rparr> \<lparr>sinceEpoch = 1445212800000000900\<rparr>)
     \<noteq> Id (MailMessage_Init (newMessage ''a@x.com'' ''b@y.org'' ''body'')
       \<lparr>sinceEpoch = 1445212800000000000\<rparr> \<lparr>sinceEpoch = 1445212800000000500\<rparr>)
   \<and> \<not> IsZero (CreatedDate (MailMessage_Init (newMessage ''a@x.com'' ''b@y.org'' ''body'')
       \<lparr>sinceEpoch = 1445212800000000000\<rparr> \<lparr>sinceEpoch = 1445212800000000500\<rparr>))
   \<and> HostnameFrom (MailMessage_Init (newMessage ''nobody'' ''b@y.org'' ''body'')
       \<lparr>sinceEpoch = 1445212800000000000\<rparr> \<lparr>sinceEpoch = 1445212800000000500\<rparr>) = []"
proof -
  let ?t1 = "\<lparr>sinceEpoch = 1445212800000000000\<rparr>"
  let ?t2 = "\<lparr>sinceEpoch = 1445212800000000500\<rparr>"
  let ?t3 = "\<lparr>sinceEpoch = 1445212800000000900\<rparr>"
  have clock: "clockInRange ?t1" "clockInRange ?t2"
    by (simp_all add: clockInRange_def)
  have differ: "sinceEpoch ?t2 \<noteq> sinceEpoch ?t1"
    by simp
  have w: "wellFormed ''a'' ''x'' ''com''" "wellFormed ''b'' ''y'' ''org''"
    by (simp_all add: wellFormed_def isWordChar_def isLetter_def isDigit_def)
  have e: "Envelope (newMessage ''a@x.com'' ''b@y.org'' ''body'')
      = ''a'' @ ''@'' @ ''x'' @ ''.'' @ ''com''"
    "Recipient (newMessage ''a@x.com'' ''b@y.org'' ''body'')
      = ''b'' @ ''@'' @ ''y'' @ ''.'' @ ''org''"
    by (simp_all add: newMessage_def)
  have n: "\<forall>h. getHostnameFromEmail (Envelope (newMessage ''nobody'' ''b@y.org'' ''body''))
      \<noteq> Inr h"
    "HostnameFrom (newMessage ''nobody'' ''b@y.org'' ''body'') = []"
    using getHostnameFromEmail_no_at [of "''nobody''"] by (simp_all add: newMessage_def)
  note 1 = MailMessage_Init_fields [of "newMessage ''a@x.com'' ''b@y.org'' ''body''" ?t1 ?t2]
  note 2 = MailMessage_Init_fields [of "newMessage ''nobody'' ''b@y.org'' ''body''" ?t1 ?t2]
  have "HostnameFrom (MailMessage_Init (newMessage ''a@x.com'' ''b@y.org'' ''body'') ?t1 ?t2)
      = ''x'' @ ''.'' @ ''com''"
    using 1 e(1) w(1) by blast
  moreover have "HostnameTo (MailMessage_Init (newMessage ''a@x.com'' ''b@y.org'' ''body'') ?t1 ?t2)
      = ''y'' @ ''.'' @ ''org''"
    using 1 e(2) w(2) by blast
  moreover have "sint (Id (MailMessage_Init (newMessage ''a@x.com'' ''b@y.org'' ''body'') ?t1 ?t2))
      = sinceEpoch ?t1"
    "Id (MailMessage_Init (newMessage ''a@x.com'' ''b@y.org'' ''body'') ?t1 ?t2) \<noteq> 0"
    using 1 clock(1) by blast+
  moreover have "Id (MailMessage_Init (newMessage ''c@z.net'' ''b@y.org'' ''other'') ?t2 ?t3)
      \<noteq> Id (MailMessage_Init (newMessage ''a@x.com'' ''b@y.org'' ''body'') ?t1 ?t2)"
    using 1 clock differ by blast
  moreover have "\<not> IsZero (CreatedDate
      (MailMessage_Init (newMessage ''a@x.com'' ''b@y.org'' ''body'') ?t1 ?t2))"
    using 1 clock(2) by blast
  moreover have "HostnameFrom (MailMessage_Init (newMessage ''nobody'' ''b@y.org'' ''body'') ?t1 ?t2)
      = HostnameFrom (newMessage ''nobody'' ''b@y.org'' ''body'')"
    using 2 n(1) by blast
  ultimately show ?thesis
    using n(2) by simp
qed

text \<open>
  The claim as it was stated fails. A message that holds the host name
  \<^verbatim>\<open>old.example\<close> and whose envelope \<^verbatim>\<open>nobody\<close> is not an address still holds
  \<^verbatim>\<open>old.example\<close> after \<^verbatim>\<open>Init\<close>: the field is not left empty. And a clock that
  reads the first instant of 1970 gives the id zero.
\<close>

theorem MailMessage_Init_keeps_hostname_counterexample:
  "getHostnameFromEmail ''nobody'' = Inl (errors_New ''invalid email address'')
   \<and> HostnameFrom (MailMessage_Init
        ((newMessage ''nobody'' ''b@y.org'' ''body'')\<lparr>HostnameFrom := ''old.example''\<rparr>)
        \<lparr>sinceEpoch = 1445212800000000000\<rparr> \<lparr>sinceEpoch = 1445212800000000500\<rparr>)
      = ''old.example''
   \<and> Id (MailMessage_Init (newMessage ''a@x.com'' ''b@y.org'' ''body'')
        \<lparr>sinceEpoch = 0\<rparr> \<lparr>sinceEpoch = 500\<rparr>) = 0"
proof -
  have "getHostnameFromEmail ''nobody'' = Inl (errors_New ''invalid email address'')"
    using getHostnameFromEmail_no_at [of "''nobody''"] by simp
  then show ?thesis
    by (simp add: MailMessage_Init_eq newMessage_def UnixNano_def)
qed

section \<open>Properties of the library functions\<close>

lemma Index_single:
  "Index s [c] = (if c \<in> set s then Some (length (takeWhile (\<lambda>x. x \<noteq> c) s)) else None)"
  by (induction s) auto

lemma Split_single:
  "\<exists>rest. Split s [c] = takeWhile (\<lambda>x. x \<noteq> c) s # rest"
proof (cases "c \<in> set s")
  case True
  then have "Index s [c] = Some (length (takeWhile (\<lambda>x. x \<noteq> c) s))"
    by (simp add: Index_single)
  then show ?thesis
    by (subst Split.simps) (simp add: takeWhile_eq_take [symmetric])
next
  case False
  then have "Index s [c] = None"
    by (simp add: Index_single)
  moreover from False have tw: "takeWhile (\<lambda>x. x \<noteq> c) s = s"
    by (auto simp: takeWhile_eq_all_conv)
  ultimately show ?thesis
    by (subst Split.simps) (simp add: tw)
qed

lemma Split_space:
  "Split s '' '' \<noteq> []" "index (Split s '' '') 0 = Inr (firstPart s)"
  "hd (Split s '' '') = firstPart s"
  using Split_single [of s "CHR '' ''"] by (auto simp: index_def firstPart_def)

lemma digitValue_bounds: "isDigit c \<Longrightarrow> 0 \<le> digitValue c \<and> digitValue c \<le> 9"
  by (auto simp: isDigit_def digitValue_def)

lemma foldl_digits_mono:
  "0 \<le> n \<Longrightarrow> list_all isDigit cs \<Longrightarrow> n \<le> foldl (\<lambda>n c. n * 10 + digitValue c) n cs"
proof (induction cs arbitrary: n)
  case Nil
  then show ?case by simp
next
  case (Cons c cs)
  then have d: "0 \<le> digitValue c"
    using digitValue_bounds [of c] by simp
  with Cons.prems have "n \<le> n * 10 + digitValue c"
    by simp
  moreover have "n * 10 + digitValue c
      \<le> foldl (\<lambda>n c. n * 10 + digitValue c) (n * 10 + digitValue c) cs"
    using Cons.prems d by (intro Cons.IH) auto
  ultimately show ?case
    by simp
qed

lemma parseDigits_Inr:
  "0 \<le> n \<Longrightarrow> n < 18446744073709551616 \<Longrightarrow>
   parseDigits n cs = Inr m \<longleftrightarrow>
     list_all isDigit cs \<and> m = foldl (\<lambda>n c. n * 10 + digitValue c) n cs
     \<and> m < 18446744073709551616"
proof (induction cs arbitrary: n)
  case Nil
  then show ?case
    by auto
next
  case (Cons c cs)
  show ?case
  proof (cases "isDigit c")
    case False
    then show ?thesis by simp
  next
    case True
    then have d: "0 \<le> digitValue c"
      using digitValue_bounds [of c] by simp
    with Cons.prems have n': "0 \<le> n * 10 + digitValue c"
      by simp
    show ?thesis
    proof (cases "18446744073709551616 \<le> n * 10 + digitValue c")
      case over: True
      have "list_all isDigit cs \<Longrightarrow>
        18446744073709551616
          \<le> foldl (\<lambda>n c. n * 10 + digitValue c) (n * 10 + digitValue c) cs"
        using foldl_digits_mono [OF n', of cs] over by simp
      with True over show ?thesis
        by auto
    next
      case False
      with True Cons.IH [OF n'] show ?thesis
        by simp
    qed
  qed
qed

lemma ParseUint_Inr:
  "ParseUint s = Inr m \<longleftrightarrow>
     s \<noteq> [] \<and> list_all isDigit s \<and> m = decimal s \<and> m < 18446744073709551616"
  using parseDigits_Inr [of 0 s m] by (auto simp: ParseUint_def decimal_def)

lemma decimal_nonneg: "list_all isDigit s \<Longrightarrow> 0 \<le> decimal s"
  using foldl_digits_mono [of 0 s] by (simp add: decimal_def)

lemma sign_not_digit: "\<not> isDigit CHR ''+''" "\<not> isDigit CHR ''-''"
  by (simp_all add: isDigit_def)

text \<open>
  What \<^verbatim>\<open>Atoi\<close> accepts: an optional sign and a non-empty string of decimal digits
  whose value fits 64 bits.
\<close>

lemma Atoi_Inr:
  "Atoi s = Inr n \<longleftrightarrow>
     (\<exists>sign ds. s = sign @ ds \<and> (sign = [] \<or> sign = ''+'' \<or> sign = ''-'')
        \<and> ds \<noteq> [] \<and> list_all isDigit ds
        \<and> n = (if sign = ''-'' then - decimal ds else decimal ds)
        \<and> - 9223372036854775808 \<le> n \<and> n < 9223372036854775808)"
  (is "?L \<longleftrightarrow> ?R")
proof
  assume L: ?L
  then have ne: "s \<noteq> []"
    by (auto simp: Atoi_def ParseInt_def)
  define sign where "sign = (if hd s = CHR ''+'' \<or> hd s = CHR ''-'' then [hd s] else [])"
  define ds where "ds = (if hd s = CHR ''+'' \<or> hd s = CHR ''-'' then tl s else s)"
  have s: "s = sign @ ds"
    using ne by (simp add: sign_def ds_def)
  from L ne obtain un where un: "ParseUint ds = Inr un"
    and rng: "\<not> (hd s \<noteq> CHR ''-'' \<and> 9223372036854775808 \<le> un)"
      "\<not> (hd s = CHR ''-'' \<and> 9223372036854775808 < un)"
    and n: "n = (if hd s = CHR ''-'' then - un else un)"
    by (auto simp: Atoi_def ParseInt_def Let_def ds_def
        split: sum.splits NumError.splits if_splits)
  from un have ds: "ds \<noteq> []" "list_all isDigit ds" "un = decimal ds"
    by (auto simp: ParseUint_Inr)
  then have "0 \<le> un"
    by (simp add: decimal_nonneg)
  with rng n have "- 9223372036854775808 \<le> n \<and> n < 9223372036854775808"
    by (auto split: if_splits)
  moreover have "n = (if sign = ''-'' then - decimal ds else decimal ds)"
    using n ds by (auto simp: sign_def)
  moreover have "sign = [] \<or> sign = ''+'' \<or> sign = ''-''"
    by (auto simp: sign_def)
  ultimately show ?R
    using s ds by blast
next
  assume ?R
  then obtain sign ds where s: "s = sign @ ds"
    and sg: "sign = [] \<or> sign = ''+'' \<or> sign = ''-''"
    and ds: "ds \<noteq> []" "list_all isDigit ds"
    and n: "n = (if sign = ''-'' then - decimal ds else decimal ds)"
    and rng: "- 9223372036854775808 \<le> n" "n < 9223372036854775808"
    by blast
  have nn: "0 \<le> decimal ds"
    using ds by (simp add: decimal_nonneg)
  from ds have hd: "isDigit (hd ds)"
    by (cases ds) auto
  then have hd': "hd ds \<noteq> CHR ''+''" "hd ds \<noteq> CHR ''-''"
    using sign_not_digit by auto
  have un: "ParseUint ds = Inr (decimal ds)"
    using ds n rng nn by (auto simp: ParseUint_Inr split: if_splits)
  from sg show ?L
  proof (elim disjE)
    assume "sign = []"
    with s ds hd' un n rng show ?thesis
      by (simp add: Atoi_def ParseInt_def Let_def)
  next
    assume "sign = ''+''"
    with s ds un n rng show ?thesis
      by (simp add: Atoi_def ParseInt_def Let_def)
  next
    assume "sign = ''-''"
    with s ds un n rng show ?thesis
      by (simp add: Atoi_def ParseInt_def Let_def)
  qed
qed

section \<open>Properties of ReturnMail\<close>

text \<open>
  The event after the call: the worker of the client, when there is one, has been reset;
  the message carries the classified error of this call, or else the error it carried;
  one verdict has been added to the channel.
\<close>

lemma ReturnMail_result:
  "ReturnMail event err =
     Inr \<lparr>Client = map_option (\<lambda>client. client\<lparr>Worker := map_option Reset (Worker client)\<rparr>)
                    (Client event),
          Message = (case classify err of
                       None \<Rightarrow> SendEvent.Message event
                     | Some e \<Rightarrow> (SendEvent.Message event)\<lparr>Error := Some e\<rparr>),
          Result = Result event @
            [if classify err = None \<and> Error (SendEvent.Message event) = None
             then DelaySendEventResult else ErrorSendEventResult]\<rparr>"
  apply (cases event)
  apply (auto simp: ReturnMail_def classify_def send_def Let_def Split_space
      split: option.splits sum.splits)
  done

lemma classify_Some_iff:
  "classify err = Some e \<longleftrightarrow>
     (\<exists>msg code. err = Some (errorString msg) \<and> Atoi (TrimSpace (firstPart msg)) = Inr code
        \<and> e = \<lparr>MailError.Message = msg, Code = code\<rparr>)"
proof (cases err)
  case None
  then show ?thesis
    by (simp add: classify_def)
next
  case (Some x)
  then show ?thesis
    by (cases x) (auto simp: classify_def split: sum.splits)
qed

lemma classify_errorString:
  "classify (Some (errorString msg)) =
     (case Atoi (TrimSpace (firstPart msg)) of
        Inl x \<Rightarrow> None
      | Inr code \<Rightarrow> Some \<lparr>MailError.Message = msg, Code = code\<rparr>)"
  by (simp add: classify_def split: sum.splits)

lemma classify_examples:
  "classify None = None"
  "classify (Some (errorString ''421 try again later''))
     = Some \<lparr>MailError.Message = ''421 try again later'', Code = 421\<rparr>"
  "classify (Some (errorString ''550 mailbox unavailable''))
     = Some \<lparr>MailError.Message = ''550 mailbox unavailable'', Code = 550\<rparr>"
  "classify (Some (errorString ''timeout'')) = None"
  "classify (Some (errorString ''connection reset'')) = None"
  "classify (Some (errorString [])) = None"
  "classify (Some (errorString (''550'' @ [CHR 0x09] @ ''mailbox unavailable''))) = None"
  by code_simp+

lemma first_part_examples:
  "Atoi (TrimSpace (firstPart ''550 mailbox unavailable'')) = Inr 550"
  "Atoi (TrimSpace (firstPart ''timeout'')) = Inl ErrSyntax"
  "Atoi (TrimSpace (firstPart ''connection reset'')) = Inl ErrSyntax"
  "Atoi (TrimSpace (firstPart [])) = Inl ErrSyntax"
  by code_simp+

text \<open>
  Claim C1. Every call of \<^verbatim>\<open>ReturnMail\<close> returns and writes exactly one verdict on
  the result channel of the event: the hard error when the message carries a classified
  error after the classification step, the retry with delay otherwise.
\<close>

theorem ReturnMail_verdict:
  "\<exists>event'. ReturnMail event err = Inr event'
     \<and> Result event' = Result event @
          [if Error (SendEvent.Message event') = None
           then DelaySendEventResult else ErrorSendEventResult]"
  by (simp add: ReturnMail_result split: option.splits)

text \<open>
  The two events of the spec, on a message with no error yet: the text
  \<^verbatim>\<open>421 try again later\<close> gives the hard error, the text \<^verbatim>\<open>timeout\<close> the retry.
\<close>

theorem ReturnMail_verdict_witness:
  "ReturnMail (newEvent None (newMessage ''a@x.com'' ''b@y.org'' ''body''))
       (Some (errorString ''421 try again later''))
     = Inr \<lparr>Client = None,
            Message = (newMessage ''a@x.com'' ''b@y.org'' ''body'')
              \<lparr>Error := Some \<lparr>MailError.Message = ''421 try again later'', Code = 421\<rparr>\<rparr>,
            Result = [ErrorSendEventResult]\<rparr>
   \<and> ReturnMail (newEvent None (newMessage ''a@x.com'' ''b@y.org'' ''body''))
       (Some (errorString ''timeout''))
     = Inr \<lparr>Client = None, Message = newMessage ''a@x.com'' ''b@y.org'' ''body'',
            Result = [DelaySendEventResult]\<rparr>"
  using
    ReturnMail_verdict [of "newEvent None (newMessage ''a@x.com'' ''b@y.org'' ''body'')"
      "Some (errorString ''421 try again later'')"]
    ReturnMail_verdict [of "newEvent None (newMessage ''a@x.com'' ''b@y.org'' ''body'')"
      "Some (errorString ''timeout'')"]
  by (simp add: ReturnMail_result classify_examples newEvent_def newMessage_def)

text \<open>
  Claim C2, as amended. After a call of \<^verbatim>\<open>ReturnMail\<close> the message carries the
  classified error of this call when the text of the raw error begins with an integer
  (the part before its first space, trimmed), and otherwise the error it carried
  before the call: a nil raw error and a first part that is no integer leave the field
  as it was, so it is nil afterwards only if it was nil before. The field is non-nil
  after the call exactly when this call classified the error or an earlier one had.
\<close>

theorem ReturnMail_error_after:
  "\<exists>event'. ReturnMail event err = Inr event'
     \<and> Error (SendEvent.Message event') =
         (case classify err of
            Some e \<Rightarrow> Some e
          | None \<Rightarrow> Error (SendEvent.Message event))
     \<and> (Error (SendEvent.Message event') \<noteq> None \<longleftrightarrow>
          classify err \<noteq> None \<or> Error (SendEvent.Message event) \<noteq> None)
     \<and> (classify err \<noteq> None \<longleftrightarrow>
          (\<exists>msg code. err = Some (errorString msg)
             \<and> Atoi (TrimSpace (firstPart msg)) = Inr code))"
proof -
  have "classify err \<noteq> None \<longleftrightarrow>
      (\<exists>msg code. err = Some (errorString msg) \<and> Atoi (TrimSpace (firstPart msg)) = Inr code)"
    using classify_Some_iff [of err] by auto
  then show ?thesis
    by (auto simp: ReturnMail_result split: option.splits)
qed

text \<open>
  A message with no error is classified by the text \<^verbatim>\<open>550 mailbox unavailable\<close> and
  by no other of these raw errors; a message that carries an error keeps it.
\<close>

theorem ReturnMail_error_after_witness:
  "(\<exists>event'. ReturnMail (newEvent None (newMessage ''a@x.com'' ''b@y.org'' ''body''))
        (Some (errorString ''550 mailbox unavailable'')) = Inr event'
      \<and> Error (SendEvent.Message event')
          = Some \<lparr>MailError.Message = ''550 mailbox unavailable'', Code = 550\<rparr>)
   \<and> (\<exists>event'. ReturnMail (newEvent None (newMessage ''a@x.com'' ''b@y.org'' ''body''))
        (Some (errorString ''timeout'')) = Inr event'
      \<and> Error (SendEvent.Message event') = None)
   \<and> (\<exists>event'. ReturnMail (newEvent None ((newMessage ''a@x.com'' ''b@y.org'' ''body'')
          \<lparr>Error := Some \<lparr>MailError.Message = ''421 try again later'', Code = 421\<rparr>\<rparr>))
        None = Inr event'
      \<and> Error (SendEvent.Message event')
          = Some \<lparr>MailError.Message = ''421 try again later'', Code = 421\<rparr>)"
  using
    ReturnMail_error_after [of "newEvent None (newMessage ''a@x.com'' ''b@y.org'' ''body'')"
      "Some (errorString ''550 mailbox unavailable'')"]
    ReturnMail_error_after [of "newEvent None (newMessage ''a@x.com'' ''b@y.org'' ''body'')"
      "Some (errorString ''timeout'')"]
    ReturnMail_error_after [of "newEvent None ((newMessage ''a@x.com'' ''b@y.org'' ''body'')
          \<lparr>Error := Some \<lparr>MailError.Message = ''421 try again later'', Code = 421\<rparr>\<rparr>)" None]
  by (auto simp: classify_examples newEvent_def newMessage_def)

text \<open>
  The claim as it was stated fails: the raw error \<^verbatim>\<open>timeout\<close> begins with no
  integer, and the message that carried the error of an earlier attempt still carries it
  after the call, which sends the hard error.
\<close>

theorem ReturnMail_keeps_error_counterexample:
  "Atoi (TrimSpace (hd (Split ''timeout'' '' ''))) = Inl ErrSyntax
   \<and> ReturnMail
        (newEvent None ((newMessage ''a@x.com'' ''b@y.org'' ''body'')
           \<lparr>Error := Some \<lparr>MailError.Message = ''550 mailbox unavailable'', Code = 550\<rparr>\<rparr>))
        (Some (errorString ''timeout''))
      = Inr \<lparr>Client = None,
             Message = (newMessage ''a@x.com'' ''b@y.org'' ''body'')
               \<lparr>Error := Some \<lparr>MailError.Message = ''550 mailbox unavailable'', Code = 550\<rparr>\<rparr>,
             Result = [ErrorSendEventResult]\<rparr>"
  by (simp add: ReturnMail_result classify_examples first_part_examples Split_space
      newEvent_def newMessage_def)

text \<open>
  Claim C3, as amended. For every raw error text, the classification cuts the text at
  the space character only (not at other white space) and takes the part before the
  first space. If that part, trimmed of surrounding white space, is an integer (an
  optional sign and decimal digits, with a value that fits 64 bits), the message gets the
  classified error made of the whole text and of that integer; if not, and for the empty
  text, no classified error is made and nothing fails.
\<close>

theorem ReturnMail_classifies_first_part:
  "(\<exists>event'. ReturnMail event (Some (errorString msg)) = Inr event'
      \<and> Error (SendEvent.Message event') =
          (case Atoi (TrimSpace (takeWhile (\<lambda>c. c \<noteq> CHR '' '') msg)) of
             Inr code \<Rightarrow> Some \<lparr>MailError.Message = msg, Code = code\<rparr>
           | Inl e \<Rightarrow> Error (SendEvent.Message event)))
   \<and> hd (Split msg '' '') = takeWhile (\<lambda>c. c \<noteq> CHR '' '') msg
   \<and> (Atoi s = Inr n \<longleftrightarrow>
        (\<exists>sign ds. s = sign @ ds \<and> (sign = [] \<or> sign = ''+'' \<or> sign = ''-'')
           \<and> ds \<noteq> [] \<and> list_all isDigit ds
           \<and> n = (if sign = ''-'' then - decimal ds else decimal ds)
           \<and> - 9223372036854775808 \<le> n \<and> n < 9223372036854775808))
   \<and> Atoi (TrimSpace (takeWhile (\<lambda>c. c \<noteq> CHR '' '') [])) = Inl ErrSyntax"
proof -
  have "\<exists>event'. ReturnMail event (Some (errorString msg)) = Inr event'
      \<and> Error (SendEvent.Message event') =
          (case Atoi (TrimSpace (takeWhile (\<lambda>c. c \<noteq> CHR '' '') msg)) of
             Inr code \<Rightarrow> Some \<lparr>MailError.Message = msg, Code = code\<rparr>
           | Inl e \<Rightarrow> Error (SendEvent.Message event))"
    by (simp add: ReturnMail_result classify_errorString firstPart_def split: sum.splits)
  moreover have "hd (Split msg '' '') = takeWhile (\<lambda>c. c \<noteq> CHR '' '') msg"
    by (simp add: Split_space firstPart_def)
  moreover have "Atoi (TrimSpace (takeWhile (\<lambda>c. c \<noteq> CHR '' '') [])) = Inl ErrSyntax"
    using first_part_examples(4) by (simp add: firstPart_def)
  ultimately show ?thesis
    using Atoi_Inr [of s n] by blast
qed

text \<open>The two texts of the claim, and the empty text, on a message with no error.\<close>

theorem ReturnMail_classifies_first_part_witness:
  "(\<exists>event'. ReturnMail (newEvent None (newMessage ''a@x.com'' ''b@y.org'' ''body''))
        (Some (errorString ''550 mailbox unavailable'')) = Inr event'
      \<and> Error (SendEvent.Message event')
          = Some \<lparr>MailError.Message = ''550 mailbox unavailable'', Code = 550\<rparr>)
   \<and> (\<exists>event'. ReturnMail (newEvent None (newMessage ''a@x.com'' ''b@y.org'' ''body''))
        (Some (errorString ''connection reset'')) = Inr event'
      \<and> Error (SendEvent.Message event') = None)
   \<and> (\<exists>event'. ReturnMail (newEvent None (newMessage ''a@x.com'' ''b@y.org'' ''body''))
        (Some (errorString [])) = Inr event'
      \<and> Error (SendEvent.Message event') = None)
   \<and> Atoi ''-550'' = Inr (- 550)"
proof -
  have "\<exists>sign ds. ''-550'' = sign @ ds \<and> (sign = [] \<or> sign = ''+'' \<or> sign = ''-'')
      \<and> ds \<noteq> [] \<and> list_all isDigit ds
      \<and> (- 550 :: int) = (if sign = ''-'' then - decimal ds else decimal ds)
      \<and> - 9223372036854775808 \<le> (- 550 :: int) \<and> (- 550 :: int) < 9223372036854775808"
    by (intro exI [of _ "''-''"] exI [of _ "''550''"])
      (simp add: isDigit_def decimal_def digitValue_def)
  then have 4: "Atoi ''-550'' = Inr (- 550)"
    using ReturnMail_classifies_first_part [of _ _ "''-550''" "- 550"] by blast
  let ?ev = "newEvent None (newMessage ''a@x.com'' ''b@y.org'' ''body'')"
  have none: "Error (SendEvent.Message ?ev) = None"
    by (simp add: newEvent_def newMessage_def)
  have e: "Atoi (TrimSpace (takeWhile (\<lambda>c. c \<noteq> CHR '' '') ''550 mailbox unavailable''))
        = Inr 550"
    "Atoi (TrimSpace (takeWhile (\<lambda>c. c \<noteq> CHR '' '') ''connection reset'')) = Inl ErrSyntax"
    "Atoi (TrimSpace (takeWhile (\<lambda>c. c \<noteq> CHR '' '') [])) = Inl ErrSyntax"
    using first_part_examples unfolding firstPart_def by blast+
  have 1: "\<exists>event'. ReturnMail ?ev (Some (errorString ''550 mailbox unavailable'')) = Inr event'
      \<and> Error (SendEvent.Message event')
          = Some \<lparr>MailError.Message = ''550 mailbox unavailable'', Code = 550\<rparr>"
    using ReturnMail_classifies_first_part [of ?ev "''550 mailbox unavailable''" "[]" 0]
    unfolding e by simp
  have 2: "\<exists>event'. ReturnMail ?ev (Some (errorString ''connection reset'')) = Inr event'
      \<and> Error (SendEvent.Message event') = None"
    using ReturnMail_classifies_first_part [of ?ev "''connection reset''" "[]" 0]
    unfolding e none by simp
  have 3: "\<exists>event'. ReturnMail ?ev (Some (errorString [])) = Inr event'
      \<and> Error (SendEvent.Message event') = None"
    using ReturnMail_classifies_first_part [of ?ev "[]" "[]" 0]
    unfolding e none by simp
  from 1 2 3 4 show ?thesis
    by blast
qed

text \<open>
  The claim as it was stated fails: in the text \<^verbatim>\<open>550\<close>, tab,
  \<^verbatim>\<open>mailbox unavailable\<close> the first token delimited by white space is \<^verbatim>\<open>550\<close>,
  which is an integer, and \<^verbatim>\<open>ReturnMail\<close> makes no classified error of it: the part
  before the first space holds the tab and the word after it.
\<close>

theorem ReturnMail_tab_counterexample:
  "firstWhitespaceToken (''550'' @ [CHR 0x09] @ ''mailbox unavailable'') = ''550''
   \<and> Atoi (TrimSpace ''550'') = Inr 550
   \<and> hd (Split (''550'' @ [CHR 0x09] @ ''mailbox unavailable'') '' '')
       = ''550'' @ [CHR 0x09] @ ''mailbox''
   \<and> ReturnMail (newEvent None (newMessage ''a@x.com'' ''b@y.org'' ''body''))
        (Some (errorString (''550'' @ [CHR 0x09] @ ''mailbox unavailable'')))
      = Inr \<lparr>Client = None, Message = newMessage ''a@x.com'' ''b@y.org'' ''body'',
             Result = [DelaySendEventResult]\<rparr>"
proof -
  have "firstWhitespaceToken (''550'' @ [CHR 0x09] @ ''mailbox unavailable'') = ''550''"
    by code_simp
  moreover have "Atoi (TrimSpace ''550'') = Inr 550"
    by code_simp
  moreover have "hd (Split (''550'' @ [CHR 0x09] @ ''mailbox unavailable'') '' '')
       = ''550'' @ [CHR 0x09] @ ''mailbox''"
    by (simp add: Split_space firstPart_def)
  moreover have "ReturnMail (newEvent None (newMessage ''a@x.com'' ''b@y.org'' ''body''))
        (Some (errorString (''550'' @ [CHR 0x09] @ ''mailbox unavailable'')))
      = Inr \<lparr>Client = None, Message = newMessage ''a@x.com'' ''b@y.org'' ''body'',
             Result = [DelaySendEventResult]\<rparr>"
    by (simp only: ReturnMail_result classify_examples)
      (simp add: newEvent_def newMessage_def)
  ultimately show ?thesis
    by blast
qed

text \<open>
  Claim C4. \<^verbatim>\<open>ReturnMail\<close> never fails: for every event and every raw error it ends
  without a panic and has written one verdict more. The list of parts is never empty,
  so the read of its first element is in range. A nil error, and a text whose first part
  is no integer (the empty text among them), leave the message without a new
  classification.
\<close>

theorem ReturnMail_never_fails:
  "(\<exists>event' v. ReturnMail event err = Inr event' \<and> Result event' = Result event @ [v])
   \<and> (\<forall>p. ReturnMail event err \<noteq> Inl p)
   \<and> (\<forall>msg. 0 < length (Split msg '' '') \<and> (\<exists>part. index (Split msg '' '') 0 = Inr part))
   \<and> (\<forall>msg e. err = Some (errorString msg) \<and> Atoi (TrimSpace (hd (Split msg '' ''))) = Inl e
        \<longrightarrow> (\<exists>event'. ReturnMail event err = Inr event'
              \<and> SendEvent.Message event' = SendEvent.Message event))
   \<and> (err = None
        \<longrightarrow> (\<exists>event'. ReturnMail event err = Inr event'
              \<and> SendEvent.Message event' = SendEvent.Message event))"
proof -
  have "\<forall>msg. 0 < length (Split msg '' '') \<and> (\<exists>part. index (Split msg '' '') 0 = Inr part)"
    by (simp add: Split_space)
  moreover have "\<forall>msg e. err = Some (errorString msg)
        \<and> Atoi (TrimSpace (hd (Split msg '' ''))) = Inl e
        \<longrightarrow> (\<exists>event'. ReturnMail event err = Inr event'
              \<and> SendEvent.Message event' = SendEvent.Message event)"
    by (auto simp: ReturnMail_result classify_errorString Split_space)
  moreover have "err = None
        \<longrightarrow> (\<exists>event'. ReturnMail event err = Inr event'
              \<and> SendEvent.Message event' = SendEvent.Message event)"
    by (auto simp: ReturnMail_result classify_examples)
  ultimately show ?thesis
    by (simp add: ReturnMail_result)
qed

text \<open>A nil error, the empty text and a text with no code: the message is as it was.\<close>

theorem ReturnMail_never_fails_witness:
  "(\<exists>event'. ReturnMail (newEvent None (newMessage ''a@x.com'' ''b@y.org'' ''body'')) None
        = Inr event'
      \<and> SendEvent.Message event' = newMessage ''a@x.com'' ''b@y.org'' ''body''
      \<and> length (Result event') = 1)
   \<and> (\<exists>event'. ReturnMail (newEvent None (newMessage ''a@x.com'' ''b@y.org'' ''body''))
        (Some (errorString [])) = Inr event'
      \<and> SendEvent.Message event' = newMessage ''a@x.com'' ''b@y.org'' ''body''
      \<and> length (Result event') = 1)
   \<and> (\<exists>event'. ReturnMail (newEvent None (newMessage ''a@x.com'' ''b@y.org'' ''body''))
        (Some (errorString ''connection reset'')) = Inr event'
      \<and> SendEvent.Message event' = newMessage ''a@x.com'' ''b@y.org'' ''body''
      \<and> length (Result event') = 1)"
proof -
  let ?ev = "newEvent None (newMessage ''a@x.com'' ''b@y.org'' ''body'')"
  have r: "Result ?ev = []" "SendEvent.Message ?ev = newMessage ''a@x.com'' ''b@y.org'' ''body''"
    by (simp_all add: newEvent_def)
  have a: "Atoi (TrimSpace (hd (Split [] '' ''))) = Inl ErrSyntax"
    "Atoi (TrimSpace (hd (Split ''connection reset'' '' ''))) = Inl ErrSyntax"
    using first_part_examples by (simp_all add: Split_space)
  have "\<exists>event'. ReturnMail ?ev None = Inr event'
      \<and> SendEvent.Message event' = newMessage ''a@x.com'' ''b@y.org'' ''body''
      \<and> length (Result event') = 1"
    using ReturnMail_never_fails [of ?ev None] r by auto
  moreover have "\<exists>event'. ReturnMail ?ev (Some (errorString [])) = Inr event'
      \<and> SendEvent.Message event' = newMessage ''a@x.com'' ''b@y.org'' ''body''
      \<and> length (Result event') = 1"
    using ReturnMail_never_fails [of ?ev "Some (errorString [])"] r a(1) by auto
  moreover have "\<exists>event'. ReturnMail ?ev (Some (errorString ''connection reset'')) = Inr event'
      \<and> SendEvent.Message event' = newMessage ''a@x.com'' ''b@y.org'' ''body''
      \<and> length (Result event') = 1"
    using ReturnMail_never_fails [of ?ev "Some (errorString ''connection reset'')"] r a(2)
    by auto
  ultimately show ?thesis
    by blast
qed

text \<open>
  Claim C5. When the event carries a client with a worker, \<^verbatim>\<open>ReturnMail\<close> calls
  \<^verbatim>\<open>Reset\<close> on the worker exactly once, whatever the raw error is and whether or not
  it was classified. When the event carries no client, or a client with no worker,
  nothing is reset and the client is as it was.
\<close>

theorem ReturnMail_resets_once:
  "\<exists>event'. ReturnMail event err = Inr event'
     \<and> Client event' =
         (case Client event of
            None \<Rightarrow> None
          | Some client \<Rightarrow>
              (case Worker client of
                 None \<Rightarrow> Some client
               | Some worker \<Rightarrow>
                   Some (client\<lparr>Worker := Some (worker\<lparr>resetCalls := resetCalls worker + 1\<rparr>)\<rparr>)))"
  by (simp add: ReturnMail_result Reset_def split: option.splits)

text \<open>
  A worker that was reset three times before has been reset four times after the call,
  with a classified error, with an error that is not classified and with a nil error. An
  event with no client and one whose client has no worker keep their client.
\<close>

theorem ReturnMail_resets_once_witness:
  "(\<exists>event'. ReturnMail
        (newEvent (Some (Some \<lparr>resetCalls = 3\<rparr>)) (newMessage ''a@x.com'' ''b@y.org'' ''body''))
        (Some (errorString ''421 try again later'')) = Inr event'
      \<and> Client event' = Some \<lparr>Worker = Some \<lparr>resetCalls = 4\<rparr>\<rparr>)
   \<and> (\<exists>event'. ReturnMail
        (newEvent (Some (Some \<lparr>resetCalls = 3\<rparr>)) (newMessage ''a@x.com'' ''b@y.org'' ''body''))
        (Some (errorString ''timeout'')) = Inr event'
      \<and> Client event' = Some \<lparr>Worker = Some \<lparr>resetCalls = 4\<rparr>\<rparr>)
   \<and> (\<exists>event'. ReturnMail
        (newEvent (Some (Some \<lparr>resetCalls = 3\<rparr>)) (newMessage ''a@x.com'' ''b@y.org'' ''body''))
        None = Inr event'
      \<and> Client event' = Some \<lparr>Worker = Some \<lparr>resetCalls = 4\<rparr>\<rparr>)
   \<and> (\<exists>event'. ReturnMail
        (newEvent None (newMessage ''a@x.com'' ''b@y.org'' ''body''))
        (Some (errorString ''timeout'')) = Inr event'
      \<and> Client event' = None)
   \<and> (\<exists>event'. ReturnMail
        (newEvent (Some None) (newMessage ''a@x.com'' ''b@y.org'' ''body''))
        (Some (errorString ''timeout'')) = Inr event'
      \<and> Client event' = Some \<lparr>Worker = None\<rparr>)"
proof -
  let ?m = "newMessage ''a@x.com'' ''b@y.org'' ''body''"
  have 1: "\<exists>event'. ReturnMail (newEvent (Some (Some \<lparr>resetCalls = 3\<rparr>)) ?m)
        (Some (errorString ''421 try again later'')) = Inr event'
      \<and> Client event' = Some \<lparr>Worker = Some \<lparr>resetCalls = 4\<rparr>\<rparr>"
    using ReturnMail_resets_once [of "newEvent (Some (Some \<lparr>resetCalls = 3\<rparr>)) ?m"
        "Some (errorString ''421 try again later'')"]
    by (simp add: newEvent_def)
  have 2: "\<exists>event'. ReturnMail (newEvent (Some (Some \<lparr>resetCalls = 3\<rparr>)) ?m)
        (Some (errorString ''timeout'')) = Inr event'
      \<and> Client event' = Some \<lparr>Worker = Some \<lparr>resetCalls = 4\<rparr>\<rparr>"
    using ReturnMail_resets_once [of "newEvent (Some (Some \<lparr>resetCalls = 3\<rparr>)) ?m"
        "Some (errorString ''timeout'')"]
    by (simp add: newEvent_def)
  have 3: "\<exists>event'. ReturnMail (newEvent (Some (Some \<lparr>resetCalls = 3\<rparr>)) ?m) None = Inr event'
      \<and> Client event' = Some \<lparr>Worker = Some \<lparr>resetCalls = 4\<rparr>\<rparr>"
    using ReturnMail_resets_once [of "newEvent (Some (Some \<lparr>resetCalls = 3\<rparr>)) ?m" None]
    by (simp add: newEvent_def)
  have 4: "\<exists>event'. ReturnMail (newEvent None ?m) (Some (errorString ''timeout'')) = Inr event'
      \<and> Client event' = None"
    using ReturnMail_resets_once [of "newEvent None ?m" "Some (errorString ''timeout'')"]
    by (simp add: newEvent_def)
  have 5: "\<exists>event'. ReturnMail (newEvent (Some None) ?m) (Some (errorString ''timeout''))
        = Inr event'
      \<and> Client event' = Some \<lparr>Worker = None\<rparr>"
    using ReturnMail_resets_once [of "newEvent (Some None) ?m" "Some (errorString ''timeout'')"]
    by (simp add: newEvent_def)
  from 1 2 3 4 5 show ?thesis
    by blast
qed

text \<open>
  Claim C9. \<^verbatim>\<open>ReturnMail\<close> leaves the binding type of the message as it was, under
  both verdicts, and changes no field of the message but the error: the id, the envelope,
  the recipient, the body, the two host names and the creation date are kept.
\<close>

theorem ReturnMail_keeps_message:
  "\<exists>event'. ReturnMail event err = Inr event'
     \<and> BindingType (SendEvent.Message event') = BindingType (SendEvent.Message event)
     \<and> Id (SendEvent.Message event') = Id (SendEvent.Message event)
     \<and> Envelope (SendEvent.Message event') = Envelope (SendEvent.Message event)
     \<and> Recipient (SendEvent.Message event') = Recipient (SendEvent.Message event)
     \<and> Body (SendEvent.Message event') = Body (SendEvent.Message event)
     \<and> HostnameFrom (SendEvent.Message event') = HostnameFrom (SendEvent.Message event)
     \<and> HostnameTo (SendEvent.Message event') = HostnameTo (SendEvent.Message event)
     \<and> CreatedDate (SendEvent.Message event') = CreatedDate (SendEvent.Message event)
     \<and> SendEvent.Message event'
         = (SendEvent.Message event)\<lparr>Error := Error (SendEvent.Message event')\<rparr>"
  by (simp add: ReturnMail_result split: option.splits)

text \<open>
  A message in the queue of five minutes stays there under the hard error and under the
  retry.
\<close>

theorem ReturnMail_keeps_message_witness:
  "(\<exists>event'. ReturnMail
        (newEvent None ((newMessage ''a@x.com'' ''b@y.org'' ''body'')
           \<lparr>BindingType := FiveMinutesDelayedBinding\<rparr>))
        (Some (errorString ''421 try again later'')) = Inr event'
      \<and> Result event' = [ErrorSendEventResult]
      \<and> BindingType (SendEvent.Message event') = FiveMinutesDelayedBinding)
   \<and> (\<exists>event'. ReturnMail
        (newEvent None ((newMessage ''a@x.com'' ''b@y.org'' ''body'')
           \<lparr>BindingType := FiveMinutesDelayedBinding\<rparr>))
        (Some (errorString ''timeout'')) = Inr event'
      \<and> Result event' = [DelaySendEventResult]
      \<and> BindingType (SendEvent.Message event') = FiveMinutesDelayedBinding)"
proof -
  let ?ev = "newEvent None ((newMessage ''a@x.com'' ''b@y.org'' ''body'')
           \<lparr>BindingType := FiveMinutesDelayedBinding\<rparr>)"
  have b: "BindingType (SendEvent.Message ?ev) = FiveMinutesDelayedBinding"
    by (simp add: newEvent_def)
  have r: "Result ?ev = []" "Error (SendEvent.Message ?ev) = None"
    by (simp_all add: newEvent_def newMessage_def)
  have 1: "\<exists>event'. ReturnMail ?ev (Some (errorString ''421 try again later'')) = Inr event'
      \<and> Result event' = [ErrorSendEventResult]
      \<and> BindingType (SendEvent.Message event') = FiveMinutesDelayedBinding"
    using ReturnMail_keeps_message [of ?ev "Some (errorString ''421 try again later'')"] b r
    by (auto simp: ReturnMail_result classify_examples)
  have 2: "\<exists>event'. ReturnMail ?ev (Some (errorString ''timeout'')) = Inr event'
      \<and> Result event' = [DelaySendEventResult]
      \<and> BindingType (SendEvent.Message event') = FiveMinutesDelayedBinding"
    using ReturnMail_keeps_message [of ?ev "Some (errorString ''timeout'')"] b r
    by (auto simp: ReturnMail_result classify_examples)
  from 1 2 show ?thesis
    by blast
qed

text \<open>
  Claim C10. With a nil raw error \<^verbatim>\<open>ReturnMail\<close> leaves the error of the message
  exactly as it was before the call, and sends the hard error if the message carried a
  classified error of an earlier attempt, the retry with delay otherwise.
\<close>

theorem ReturnMail_nil_error:
  "\<exists>event'. ReturnMail event None = Inr event'
     \<and> Error (SendEvent.Message event') = Error (SendEvent.Message event)
     \<and> Result event' = Result event @
          [if Error (SendEvent.Message event) = None
           then DelaySendEventResult else ErrorSendEventResult]"
  by (simp add: ReturnMail_result classify_examples)

text \<open>A message that carries an earlier error, and one that carries none.\<close>

theorem ReturnMail_nil_error_witness:
  "(\<exists>event'. ReturnMail
        (newEvent None ((newMessage ''a@x.com'' ''b@y.org'' ''body'')
           \<lparr>Error := Some \<lparr>MailError.Message = ''550 mailbox unavailable'', Code = 550\<rparr>\<rparr>))
        None = Inr event'
      \<and> Error (SendEvent.Message event')
          = Some \<lparr>MailError.Message = ''550 mailbox unavailable'', Code = 550\<rparr>
      \<and> Result event' = [ErrorSendEventResult])
   \<and> (\<exists>event'. ReturnMail (newEvent None (newMessage ''a@x.com'' ''b@y.org'' ''body'')) None
        = Inr event'
      \<and> Error (SendEvent.Message event') = None
      \<and> Result event' = [DelaySendEventResult])"
proof -
  have 1: "\<exists>event'. ReturnMail
        (newEvent None ((newMessage ''a@x.com'' ''b@y.org'' ''body'')
           \<lparr>Error := Some \<lparr>MailError.Message = ''550 mailbox unavailable'', Code = 550\<rparr>\<rparr>))
        None = Inr event'
      \<and> Error (SendEvent.Message event')
          = Some \<lparr>MailError.Message = ''550 mailbox unavailable'', Code = 550\<rparr>
      \<and> Result event' = [ErrorSendEventResult]"
    using ReturnMail_nil_error [of "newEvent None ((newMessage ''a@x.com'' ''b@y.org'' ''body'')
           \<lparr>Error := Some \<lparr>MailError.Message = ''550 mailbox unavailable'', Code = 550\<rparr>\<rparr>)"]
    by (simp add: newEvent_def)
  have 2: "\<exists>event'. ReturnMail (newEvent None (newMessage ''a@x.com'' ''b@y.org'' ''body'')) None
        = Inr event'
      \<and> Error (SendEvent.Message event') = None
      \<and> Result event' = [DelaySendEventResult]"
    using ReturnMail_nil_error [of "newEvent None (newMessage ''a@x.com'' ''b@y.org'' ''body'')"]
    by (simp add: newEvent_def newMessage_def)
  from 1 2 show ?thesis
    by blast
qed

end
